theory Spec2Isabelle
  imports Complex_Main "HOL-Library.Char_ord" "HOL-Library.List_Lexorder"
    "HOL-Library.Product_Lexorder"
begin

section \<open>Numeric cells of a data frame\<close>

text \<open>
  After \<open>coerce_numeric\<close> every indicator column of the ACS table holds numbers, with
  unparseable text turned into the missing value. A cell is a finite number, one of the
  two infinities, or NaN (the missing / undefined value of a numeric column). Finite
  values are kept exact: rounding and the sign of zero are not part of the model.
\<close>

datatype fval = Fin rat | PInf | NInf | NaN

text \<open>Addition of two cells (\<open>a + b\<close> on numeric columns).\<close>

fun fadd :: "fval \<Rightarrow> fval \<Rightarrow> fval" where
  "fadd NaN _ = NaN"
| "fadd _ NaN = NaN"
| "fadd PInf NInf = NaN"
| "fadd NInf PInf = NaN"
| "fadd PInf _ = PInf"
| "fadd _ PInf = PInf"
| "fadd NInf _ = NInf"
| "fadd _ NInf = NInf"
| "fadd (Fin a) (Fin b) = Fin (a + b)"

fun fneg :: "fval \<Rightarrow> fval" where
  "fneg NaN = NaN"
| "fneg PInf = NInf"
| "fneg NInf = PInf"
| "fneg (Fin a) = Fin (- a)"

definition fsub :: "fval \<Rightarrow> fval \<Rightarrow> fval" where
  "fsub a b = fadd a (fneg b)"

text \<open>
  Division of two cells (\<open>a / b\<close> on numeric columns). It never raises: a zero divisor
  gives NaN for a zero dividend and a signed infinity otherwise.
\<close>

fun fdiv :: "fval \<Rightarrow> fval \<Rightarrow> fval" where
  "fdiv NaN _ = NaN"
| "fdiv _ NaN = NaN"
| "fdiv (Fin a) (Fin b) =
     (if b = 0 then (if a = 0 then NaN else if 0 < a then PInf else NInf)
      else Fin (a / b))"
| "fdiv (Fin a) PInf = Fin 0"
| "fdiv (Fin a) NInf = Fin 0"
| "fdiv PInf (Fin b) = (if 0 \<le> b then PInf else NInf)"
| "fdiv NInf (Fin b) = (if 0 \<le> b then NInf else PInf)"
| "fdiv PInf PInf = NaN"
| "fdiv PInf NInf = NaN"
| "fdiv NInf PInf = NaN"
| "fdiv NInf NInf = NaN"

text \<open>
  \<open>df[cols].sum(axis=1)\<close>: the row-wise sum of a data frame is taken with the library
  defaults \<open>skipna=True\<close> and \<open>min_count=0\<close>, so missing cells are left out of the sum
  and a row with no present cell sums to zero.
\<close>

definition sum_axis1 :: "fval list \<Rightarrow> fval" where
  "sum_axis1 vs = foldl fadd (Fin 0) (filter (\<lambda>v. v \<noteq> NaN) vs)"

section \<open>Indicator derivation\<close>

text \<open>A row of the numeric part of the ACS table: column name to cell.\<close>

type_synonym row = "string \<Rightarrow> fval"

definition under18_cols :: "string list" where
  "under18_cols =
    [''male_under5'', ''male_5_9'', ''male_10_14'', ''male_15_17'',
     ''female_under5'', ''female_5_9'', ''female_10_14'', ''female_15_17'']"

definition age_18_64_cols :: "string list" where
  "age_18_64_cols =
    [''male_18_19'', ''male_20'', ''male_21'', ''male_22_24'', ''male_25_29'',
     ''male_30_34'', ''male_35_39'', ''male_40_44'', ''male_45_49'', ''male_50_54'',
     ''male_55_59'', ''male_60_61'', ''male_62_64'',
     ''female_18_19'', ''female_20'', ''female_21'', ''female_22_24'', ''female_25_29'',
     ''female_30_34'', ''female_35_39'', ''female_40_44'', ''female_45_49'',
     ''female_50_54'', ''female_55_59'', ''female_60_61'', ''female_62_64'']"

definition age_65_plus_cols :: "string list" where
  "age_65_plus_cols =
    [''male_65_66'', ''male_67_69'', ''male_70_74'', ''male_75_79'', ''male_80_84'',
     ''male_85_plus'',
     ''female_65_66'', ''female_67_69'', ''female_70_74'', ''female_75_79'',
     ''female_80_84'', ''female_85_plus'']"

definition compute_age_bands :: "row \<Rightarrow> row" where
  "compute_age_bands df =
    (let df = df(''age_under18'' := sum_axis1 (map df under18_cols));
         df = df(''age_18_64'' := sum_axis1 (map df age_18_64_cols));
         df = df(''age_65_plus'' := sum_axis1 (map df age_65_plus_cols))
     in df)"

definition compute_rates :: "row \<Rightarrow> row" where
  "compute_rates df =
    (let df = df(''poverty_rate'' := fdiv (df ''poverty_pop'') (df ''poverty_total''));
         df = df(''owner_rate'' :=
                fdiv (df ''owner_occ'') (fadd (df ''owner_occ'') (df ''renter_occ'')));
         df = df(''renter_rate'' :=
                fdiv (df ''renter_occ'') (fadd (df ''owner_occ'') (df ''renter_occ'')));
         df = df(''ba_plus'' :=
                fadd (fadd (fadd (df ''edu_ba'') (df ''edu_ma'')) (df ''edu_prof''))
                     (df ''edu_phd''));
         df = df(''ba_plus_rate'' := fdiv (df ''ba_plus'') (df ''edu_total_25plus''));
         df = df(''hispanic_rate'' := fdiv (df ''race_hispanic'') (df ''race_total''))
     in df)"


section \<open>Tables\<close>

datatype error = IndexError | KeyError

text \<open>
  A geo data frame: its coordinate reference system and its rows. The boundary layer also
  carries its column list, each column with the flag \<open>dtype == object\<close>, because
  \<open>pick_name_column\<close> inspects it.
\<close>

record 'r gdf =
  crs :: string
  rows :: "'r list"

record 'r cgdf = "'r gdf" +
  columns :: "(string \<times> bool) list"

text \<open>
  Input rows. A tract is its \<open>GEOID\<close> and its geometry; a redevelopment boundary is its
  attribute cells (by column name) and its geometry; a row of the concatenated ACS table
  is the three code fragments of the identifier, the year and the numeric cells.
\<close>

type_synonym 'g tract_in = "string \<times> 'g"

type_synonym ('v, 'g) boundary = "(string \<Rightarrow> 'v) \<times> 'g"

record acs_row =
  state :: string
  county :: string
  tract :: string
  acs_year :: int
  acs_num :: row

text \<open>Output rows. Columns shared by several tables are declared once.\<close>

record lab =
  redev_name :: string

record 'g tract_row = lab +
  GEOID :: string
  geometry :: 'g

record keyed = lab +
  geoid :: string

record panel_row = keyed +
  year :: int
  num :: row

record wide_row = keyed +
  counts :: "string \<Rightarrow> int"

record sectored = keyed +
  naics_sector :: string
  sector_name :: "string option"

record long_row = sectored +
  jobs :: int

record dot = sectored +
  point :: "real \<times> real"

section \<open>Spatial attribution\<close>

definition candidates :: "string list" where
  "candidates =
    [''ORG_NAME'', ''ORGANIZATION'', ''REDEV_ORG'', ''REDEV_NAME'', ''NAME'', ''ORG'']"

text \<open>
  \<open>pick_name_column\<close>: the first candidate that is a column, else the first column of
  object dtype, else the first column (an \<open>IndexError\<close> on a frame with no column).
\<close>

definition pick_name_column :: "(string \<times> bool) list \<Rightarrow> error + string" where
  "pick_name_column cols =
    (case find (\<lambda>col. col \<in> set (map fst cols)) candidates of
       Some col \<Rightarrow> Inr col
     | None \<Rightarrow>
        (case find (\<lambda>(col, is_object). is_object) cols of
           Some (col, _) \<Rightarrow> Inr col
         | None \<Rightarrow> (case cols of [] \<Rightarrow> Inl IndexError | (col, _) # _ \<Rightarrow> Inr col)))"

text \<open>
  The frame handed to the spatial join as its right operand:
  \<open>redev[["redev_name", "geometry"]]\<close> with \<open>redev_name = redev[name_col].astype(str)\<close>.
  The rendering of a cell as text is the library's and is a parameter. The coordinate
  reference system of the boundary layer is carried along unchanged.
\<close>

definition redev_for_join ::
  "('v \<Rightarrow> string) \<Rightarrow> (('v, 'g) boundary) cgdf \<Rightarrow> error + (string \<times> 'g) gdf" where
  "redev_for_join astype_str redev =
    (case pick_name_column (columns redev) of
       Inl e \<Rightarrow> Inl e
     | Inr name_col \<Rightarrow>
         Inr \<lparr>crs = crs redev,
              rows = map (\<lambda>(cells, g). (astype_str (cells name_col), g)) (rows redev)\<rparr>)"

text \<open>
  \<open>gpd.sjoin(left, right, predicate="intersects", how="left")\<close>: every left row once
  per right row whose geometry it intersects, and once with a missing right part when
  there is none. The geometric predicate is the library's and is a parameter; it is
  applied to the coordinates as they are, whatever the two reference systems. The order
  among the matches of one left row is the library's; no result below depends on it.
\<close>

definition sjoin ::
  "('g \<Rightarrow> 'g \<Rightarrow> bool) \<Rightarrow> ('g tract_in) gdf \<Rightarrow> (string \<times> 'g) gdf
     \<Rightarrow> (string \<times> 'g \<times> string option) list" where
  "sjoin intersects left right =
    concat (map (\<lambda>(gid, g).
      (case filter (\<lambda>(name, h). intersects g h) (rows right) of
         [] \<Rightarrow> [(gid, g, None)]
       | ms \<Rightarrow> map (\<lambda>(name, h). (gid, g, Some name)) ms)) (rows left))"

definition fillna :: "string \<Rightarrow> string option \<Rightarrow> string" where
  "fillna d v = (case v of None \<Rightarrow> d | Some s \<Rightarrow> s)"

definition add_redev_to_tracts ::
  "('v \<Rightarrow> string) \<Rightarrow> ('g \<Rightarrow> 'g \<Rightarrow> bool) \<Rightarrow> ('g tract_in) gdf \<Rightarrow> (('v, 'g) boundary) cgdf
     \<Rightarrow> error + ('g tract_row) gdf" where
  "add_redev_to_tracts astype_str intersects tracts redev =
    (case redev_for_join astype_str redev of
       Inl e \<Rightarrow> Inl e
     | Inr redev2 \<Rightarrow>
         Inr \<lparr>crs = crs tracts,
              rows = map (\<lambda>(gid, g, name).
                        \<lparr>redev_name = fillna ''None'' name, GEOID = gid, geometry = g\<rparr>)
                      (sjoin intersects tracts redev2)\<rparr>)"

text \<open>
  The staging step of \<open>download_data.py\<close>: both layers are written after
  \<open>to_crs("EPSG:4326")\<close>. The coordinate transformation is the library's and is a
  parameter (from the old reference system to the new one).
\<close>

definition to_crs ::
  "(string \<Rightarrow> string \<Rightarrow> 'g \<Rightarrow> 'g) \<Rightarrow> string \<Rightarrow> ('a \<times> 'g, 'z) gdf_scheme
     \<Rightarrow> ('a \<times> 'g, 'z) gdf_scheme" where
  "to_crs transform target layer =
    layer\<lparr>crs := target,
          rows := map (\<lambda>(a, g). (a, transform (crs layer) target g)) (rows layer)\<rparr>"

definition download_tracts ::
  "(string \<Rightarrow> string \<Rightarrow> 'g \<Rightarrow> 'g) \<Rightarrow> ('g tract_in) gdf \<Rightarrow> ('g tract_in) gdf" where
  "download_tracts transform tracts = to_crs transform ''EPSG:4326'' tracts"

definition read_redev_boundaries ::
  "(string \<Rightarrow> string \<Rightarrow> 'g \<Rightarrow> 'g) \<Rightarrow> (('v, 'g) boundary) cgdf \<Rightarrow> (('v, 'g) boundary) cgdf" where
  "read_redev_boundaries transform gdf = to_crs transform ''EPSG:4326'' gdf"


section \<open>Panel builder\<close>

text \<open>
  The derived fields of one ACS row, and the identifier
  \<open>geoid = state + county + tract\<close>.
\<close>

definition enrich :: "acs_row \<Rightarrow> string \<times> int \<times> row" where
  "enrich a =
    (state a @ county a @ tract a, acs_year a,
     compute_rates (compute_age_bands (acs_num a)))"

text \<open>
  \<open>acs.merge(tracts[["GEOID", "redev_name"]], left_on="geoid", right_on="GEOID",
  how="left")\<close> followed by \<open>fillna("None")\<close> on the label: every ACS row once per label
  row with its identifier, in the order of the label table, and once with the sentinel
  when there is none.
\<close>

definition merge_left ::
  "(string \<times> int \<times> row) list \<Rightarrow> (string \<times> string) list \<Rightarrow> panel_row list" where
  "merge_left acs labels =
    concat (map (\<lambda>(g, y, r).
      map (\<lambda>name. \<lparr>redev_name = fillna ''None'' name, geoid = g, year = y, num = r\<rparr>)
        (case filter (\<lambda>(gid, name). gid = g) labels of
           [] \<Rightarrow> [None]
         | ms \<Rightarrow> map (\<lambda>(gid, name). Some name) ms)) acs)"

definition keep_cols :: "string list" where
  "keep_cols =
    [''geoid'', ''year'', ''redev_name'', ''total_pop'', ''median_income'',
     ''poverty_total'', ''poverty_pop'', ''poverty_rate'', ''owner_occ'', ''renter_occ'',
     ''owner_rate'', ''renter_rate'', ''edu_total_25plus'', ''ba_plus'', ''ba_plus_rate'',
     ''race_total'', ''race_white'', ''race_black'', ''race_native'', ''race_asian'',
     ''race_pacific'', ''race_other'', ''race_two_plus'', ''race_hispanic'',
     ''hispanic_rate'', ''age_under18'', ''age_18_64'', ''age_65_plus'']"

definition numeric :: "string list" where
  "numeric = filter (\<lambda>c. c \<notin> {''geoid'', ''year'', ''redev_name''}) keep_cols"

text \<open>
  \<open>panel.groupby("geoid")[col].diff()\<close>: each row's value minus the value of the
  previous row of the same group, taken in the order of the frame, and NaN for the first
  row of a group. \<open>seen\<close> holds the rows before the current one.
\<close>

definition prev_in_group :: "string \<Rightarrow> panel_row list \<Rightarrow> panel_row option" where
  "prev_in_group g seen =
    (case filter (\<lambda>r. geoid r = g) seen of [] \<Rightarrow> None | r # rs \<Rightarrow> Some (last (r # rs)))"

fun group_diff :: "string \<Rightarrow> panel_row list \<Rightarrow> panel_row list \<Rightarrow> fval list" where
  "group_diff col seen [] = []"
| "group_diff col seen (r # rs) =
    (case prev_in_group (geoid r) seen of
       None \<Rightarrow> NaN
     | Some p \<Rightarrow> fsub (num r col) (num p col)) # group_diff col (seen @ [r]) rs"

text \<open>\<open>panel[f"delta_{col}"] = ...\<close>: a new column, written into every row.\<close>

definition add_delta :: "panel_row list \<Rightarrow> string \<Rightarrow> panel_row list" where
  "add_delta panel col =
    map (\<lambda>(r, d). r\<lparr>num := (num r)(''delta_'' @ col := d)\<rparr>)
      (zip panel (group_diff col [] panel))"

definition build_panel ::
  "(string \<times> int \<times> row) list \<Rightarrow> (string \<times> string) list \<Rightarrow> panel_row list" where
  "build_panel acs labels =
    foldl add_delta (sort_key (\<lambda>r. (geoid r, year r)) (merge_left acs labels)) numeric"

text \<open>
  \<open>prepare_acs_panel\<close> on tables already read: the ACS rows are the concatenated yearly
  extracts after renaming and numeric coercion, so the two \<open>RuntimeError\<close>s (no extract,
  a variable missing) are behind it.
\<close>

definition prepare_acs_panel ::
  "('v \<Rightarrow> string) \<Rightarrow> ('g \<Rightarrow> 'g \<Rightarrow> bool) \<Rightarrow> acs_row list \<Rightarrow> ('g tract_in) gdf
     \<Rightarrow> (('v, 'g) boundary) cgdf \<Rightarrow> error + panel_row list" where
  "prepare_acs_panel astype_str intersects acs tracts redev =
    (case add_redev_to_tracts astype_str intersects tracts redev of
       Inl e \<Rightarrow> Inl e
     | Inr tracts2 \<Rightarrow>
         Inr (build_panel (map enrich acs)
                (map (\<lambda>t. (GEOID t, redev_name t)) (rows tracts2))))"

section \<open>Sector table and dominant sector\<close>

definition SECTOR_MAP :: "(string \<times> string) list" where
  "SECTOR_MAP =
    [(''CNS01'', ''Agriculture_Forestry_Fishing''),
     (''CNS02'', ''Mining''),
     (''CNS03'', ''Utilities''),
     (''CNS04'', ''Construction''),
     (''CNS05'', ''Manufacturing''),
     (''CNS06'', ''Wholesale_Trade''),
     (''CNS07'', ''Retail_Trade''),
     (''CNS08'', ''Transportation_Warehousing''),
     (''CNS09'', ''Information''),
     (''CNS10'', ''Finance_Insurance''),
     (''CNS11'', ''Real_Estate_Rental''),
     (''CNS12'', ''Professional_Scientific_Technical''),
     (''CNS13'', ''Management_Companies''),
     (''CNS14'', ''Admin_Waste_Services''),
     (''CNS15'', ''Educational_Services''),
     (''CNS16'', ''Health_Care_Social_Assistance''),
     (''CNS17'', ''Arts_Entertainment_Recreation''),
     (''CNS18'', ''Accommodation_Food_Services''),
     (''CNS19'', ''Other_Services''),
     (''CNS20'', ''Public_Administration'')]"

definition sector_cols :: "string list" where
  "sector_cols = map fst SECTOR_MAP"

text \<open>
  \<open>lodes.melt(id_vars=["geoid", "redev_name"], value_vars=sector_cols, ...)\<close>: one block
  per sector column, in the order of \<open>sector_cols\<close>, each block listing the tracts in the
  order of the wide table; then \<open>sector_name = naics_sector.map(SECTOR_MAP)\<close>.
\<close>

definition melt :: "wide_row list \<Rightarrow> long_row list" where
  "melt lodes =
    concat (map (\<lambda>sec.
      map (\<lambda>w. \<lparr>redev_name = redev_name w, geoid = geoid w, naics_sector = sec,
                 sector_name = map_of SECTOR_MAP sec, jobs = counts w sec\<rparr>) lodes)
      sector_cols)"

text \<open>
  \<open>long_df.loc[long_df.groupby("geoid")["jobs"].idxmax()]\<close>: the groups in ascending
  order of their key, and of each group the first row that reaches the group's maximum.
\<close>

fun idxmax :: "long_row \<Rightarrow> long_row list \<Rightarrow> long_row" where
  "idxmax best [] = best"
| "idxmax best (r # rs) = idxmax (if jobs best < jobs r then r else best) rs"

definition dominant :: "long_row list \<Rightarrow> long_row list" where
  "dominant long_df =
    concat (map (\<lambda>g.
      (case filter (\<lambda>r. geoid r = g) long_df of [] \<Rightarrow> [] | r # rs \<Rightarrow> [idxmax r rs]))
      (sort (remdups (map geoid long_df))))"


section \<open>Dot-density synthesizer\<close>

definition jobs_per_dot :: int where
  "jobs_per_dot = 50"

definition max_dots_per_tract :: int where
  "max_dots_per_tract = 250"

text \<open>\<open>count = min(int(row.jobs // jobs_per_dot), max_dots_per_tract)\<close>\<close>

definition dot_count :: "int \<Rightarrow> int" where
  "dot_count j = min (j div jobs_per_dot) max_dots_per_tract"

text \<open>
  The module-level random generator is a state of type \<open>'s\<close>. Its two operations are the
  interpreter's and are parameters: \<open>seed\<close> gives the state after \<open>random.seed(n)\<close>, and
  \<open>rand\<close> is \<open>random.random()\<close>, returning a number of the unit interval and the next
  state. \<open>random.uniform(a, b)\<close> is \<open>a + (b - a) * random.random()\<close>.
\<close>

definition random_seed :: "(int \<Rightarrow> 's) \<Rightarrow> int \<Rightarrow> 's \<Rightarrow> 's" where
  "random_seed seed n s = seed n"

definition uniform :: "('s \<Rightarrow> real \<times> 's) \<Rightarrow> real \<Rightarrow> real \<Rightarrow> 's \<Rightarrow> real \<times> 's" where
  "uniform rand a b s = (let (u, s') = rand s in (a + (b - a) * u, s'))"

text \<open>
  The inner loop \<open>for _attempt in range(20)\<close>, with the number of attempts left. The
  containment test \<open>tract_geom.contains(point)\<close> is the geometry library's and is a
  parameter; it holds for the points of the interior only.
\<close>

fun attempt_loop ::
  "('s \<Rightarrow> real \<times> 's) \<Rightarrow> ('g \<Rightarrow> real \<times> real \<Rightarrow> bool) \<Rightarrow> 'g \<Rightarrow> real \<times> real \<times> real \<times> real
     \<Rightarrow> nat \<Rightarrow> 's \<Rightarrow> (real \<times> real) option \<times> 's" where
  "attempt_loop rand contains tract_geom tract_bounds 0 s = (None, s)"
| "attempt_loop rand contains tract_geom tract_bounds (Suc n) s =
    (case tract_bounds of (minx, miny, maxx, maxy) \<Rightarrow>
       (case uniform rand minx maxx s of (x, s1) \<Rightarrow>
          (case uniform rand miny maxy s1 of (y, s2) \<Rightarrow>
             if contains tract_geom (x, y) then (Some (x, y), s2)
             else attempt_loop rand contains tract_geom tract_bounds n s2)))"

text \<open>The loop \<open>for _ in range(count)\<close>: the points accepted, in order.\<close>

fun place_dots ::
  "('s \<Rightarrow> real \<times> 's) \<Rightarrow> ('g \<Rightarrow> real \<times> real \<Rightarrow> bool) \<Rightarrow> 'g \<Rightarrow> real \<times> real \<times> real \<times> real
     \<Rightarrow> nat \<Rightarrow> 's \<Rightarrow> (real \<times> real) list \<times> 's" where
  "place_dots rand contains tract_geom tract_bounds 0 s = ([], s)"
| "place_dots rand contains tract_geom tract_bounds (Suc k) s =
    (case attempt_loop rand contains tract_geom tract_bounds 20 s of (p, s1) \<Rightarrow>
       (case place_dots rand contains tract_geom tract_bounds k s1 of (ps, s2) \<Rightarrow>
          ((case p of None \<Rightarrow> ps | Some q \<Rightarrow> q # ps), s2)))"

text \<open>
  \<open>tracts_index.loc[row.geoid, "geometry"]\<close>: the geometry when the identifier labels
  one row of the index, a series of geometries when it labels several, a \<open>KeyError\<close>
  when it labels none.
\<close>

datatype 'g loc_result = Scalar 'g | Series "'g list"

definition loc_geometry :: "'g tract_row list \<Rightarrow> string \<Rightarrow> error + 'g loc_result" where
  "loc_geometry tracts g =
    (case filter (\<lambda>t. GEOID t = g) tracts of
       [] \<Rightarrow> Inl KeyError
     | [t] \<Rightarrow> Inr (Scalar (geometry t))
     | ts \<Rightarrow> Inr (Series (map geometry ts)))"

definition mk_dot :: "long_row \<Rightarrow> real \<times> real \<Rightarrow> dot" where
  "mk_dot r p =
    \<lparr>redev_name = redev_name r, geoid = geoid r, naics_sector = naics_sector r,
     sector_name = sector_name r, point = p\<rparr>"

text \<open>
  One pass of the body of \<open>for row in long_df.itertuples(index=False)\<close>: the dots of
  the row and the generator state after it. With a series of geometries, \<open>.bounds\<close> is a
  frame and \<open>tract_bounds[0]\<close> raises \<open>KeyError\<close> at the first attempt, if there is one.
\<close>

definition row_dots ::
  "('s \<Rightarrow> real \<times> 's) \<Rightarrow> ('g \<Rightarrow> real \<times> real \<times> real \<times> real) \<Rightarrow> ('g \<Rightarrow> real \<times> real \<Rightarrow> bool)
     \<Rightarrow> 'g tract_row list \<Rightarrow> long_row \<Rightarrow> 's \<Rightarrow> error + (dot list \<times> 's)" where
  "row_dots rand bounds contains tracts r s =
    (if jobs r \<le> 0 then Inr ([], s)
     else
       (case loc_geometry tracts (geoid r) of
          Inl e \<Rightarrow> Inl e
        | Inr (Scalar tract_geom) \<Rightarrow>
            (case place_dots rand contains tract_geom (bounds tract_geom)
                    (nat (dot_count (jobs r))) s of
               (ps, s') \<Rightarrow> Inr (map (mk_dot r) ps, s'))
        | Inr (Series gs) \<Rightarrow>
            if nat (dot_count (jobs r)) = 0 then Inr ([], s) else Inl KeyError))"

fun dots_loop ::
  "('s \<Rightarrow> real \<times> 's) \<Rightarrow> ('g \<Rightarrow> real \<times> real \<times> real \<times> real) \<Rightarrow> ('g \<Rightarrow> real \<times> real \<Rightarrow> bool)
     \<Rightarrow> 'g tract_row list \<Rightarrow> long_row list \<Rightarrow> dot list \<Rightarrow> 's \<Rightarrow> error + (dot list \<times> 's)" where
  "dots_loop rand bounds contains tracts [] dots s = Inr (dots, s)"
| "dots_loop rand bounds contains tracts (r # rs) dots s =
    (case row_dots rand bounds contains tracts r s of
       Inl e \<Rightarrow> Inl e
     | Inr (ds, s') \<Rightarrow> dots_loop rand bounds contains tracts rs (dots @ ds) s')"

text \<open>
  The synthesis pass of \<open>process_lodes\<close>, from \<open>dots = []\<close> and \<open>random.seed(42)\<close> on:
  the generator state \<open>s\<close> is whatever the process left there before the call.
\<close>

definition synthesize_dots ::
  "(int \<Rightarrow> 's) \<Rightarrow> ('s \<Rightarrow> real \<times> 's) \<Rightarrow> ('g \<Rightarrow> real \<times> real \<times> real \<times> real)
     \<Rightarrow> ('g \<Rightarrow> real \<times> real \<Rightarrow> bool) \<Rightarrow> 'g tract_row list \<Rightarrow> long_row list \<Rightarrow> 's
     \<Rightarrow> error + (dot list \<times> 's)" where
  "synthesize_dots seed rand bounds contains tracts long_df s =
    dots_loop rand bounds contains tracts long_df [] (random_seed seed 42 s)"

text \<open>
  \<open>process_lodes\<close> from the aggregated wide table (after the inner join with the
  tracts): the long table, the dominant-sector table and the dots.
\<close>

definition process_lodes ::
  "(int \<Rightarrow> 's) \<Rightarrow> ('s \<Rightarrow> real \<times> 's) \<Rightarrow> ('g \<Rightarrow> real \<times> real \<times> real \<times> real)
     \<Rightarrow> ('g \<Rightarrow> real \<times> real \<Rightarrow> bool) \<Rightarrow> 'g tract_row list \<Rightarrow> wide_row list \<Rightarrow> 's
     \<Rightarrow> error + (long_row list \<times> long_row list \<times> dot list)" where
  "process_lodes seed rand bounds contains tracts lodes s =
    (let long_df = melt lodes in
     case synthesize_dots seed rand bounds contains tracts long_df s of
       Inl e \<Rightarrow> Inl e
     | Inr (dots, s') \<Rightarrow> Inr (long_df, dominant long_df, dots))"

text \<open>
  The points drawn by the first \<open>n\<close> attempts from a generator state, and the state
  after \<open>k\<close> calls of \<open>random.random()\<close>; both only serve to state what
  \<open>attempt_loop\<close> consumes.
\<close>

fun draws ::
  "('s \<Rightarrow> real \<times> 's) \<Rightarrow> real \<times> real \<times> real \<times> real \<Rightarrow> nat \<Rightarrow> 's \<Rightarrow> (real \<times> real) list" where
  "draws rand tract_bounds 0 s = []"
| "draws rand tract_bounds (Suc n) s =
    (case tract_bounds of (minx, miny, maxx, maxy) \<Rightarrow>
       (case uniform rand minx maxx s of (x, s1) \<Rightarrow>
          (case uniform rand miny maxy s1 of (y, s2) \<Rightarrow>
             (x, y) # draws rand tract_bounds n s2)))"

fun advance :: "('s \<Rightarrow> real \<times> 's) \<Rightarrow> nat \<Rightarrow> 's \<Rightarrow> 's" where
  "advance rand 0 s = s"
| "advance rand (Suc k) s = advance rand k (snd (rand s))"

section \<open>Auxiliary notions and sample inputs\<close>

text \<open>The contribution of a cell to a sum that skips missing cells.\<close>

definition present :: "fval \<Rightarrow> rat" where
  "present v = (case v of Fin a \<Rightarrow> a | _ \<Rightarrow> 0)"

text \<open>A row with every cell 1 except a missing \<open>male_under5\<close>.\<close>

definition row_missing_under5 :: row where
  "row_missing_under5 = (\<lambda>c. Fin 1)(''male_under5'' := NaN)"

text \<open>
  The numerator and the denominator of each rate, from the input row, as section 4.2 of
  the specification lists them.
\<close>

definition rate_parts :: "row \<Rightarrow> (string \<times> fval \<times> fval) list" where
  "rate_parts df =
    [(''poverty_rate'', df ''poverty_pop'', df ''poverty_total''),
     (''owner_rate'', df ''owner_occ'', fadd (df ''owner_occ'') (df ''renter_occ'')),
     (''renter_rate'', df ''renter_occ'', fadd (df ''owner_occ'') (df ''renter_occ'')),
     (''ba_plus_rate'',
        fadd (fadd (fadd (df ''edu_ba'') (df ''edu_ma'')) (df ''edu_prof'')) (df ''edu_phd''),
        df ''edu_total_25plus''),
     (''hispanic_rate'', df ''race_hispanic'', df ''race_total'')]"

text \<open>
  The scenario row of the specification (an empty poverty universe, 40 owners and 60
  renters, everything else missing), and a row whose poverty universe is zero while its
  poverty count is 5.
\<close>

definition row_scenario :: row where
  "row_scenario =
    (\<lambda>c. NaN)(''poverty_total'' := Fin 0, ''poverty_pop'' := Fin 0,
               ''owner_occ'' := Fin 40, ''renter_occ'' := Fin 60)"

definition row_empty_universe :: row where
  "row_empty_universe = (\<lambda>c. Fin 0)(''poverty_pop'' := Fin 5)"

text \<open>
  Two tracts and one redevelopment boundary. Geometries are numbers here and two of them
  intersect when they are equal, so the first tract meets the boundary and the second
  does not. The boundary layer is in a projected reference system, the tracts in
  geographic coordinates.
\<close>

definition tracts_sample :: "(nat tract_in) gdf" where
  "tracts_sample = \<lparr>crs = ''EPSG:4326'', rows = [(''48439100100'', 1), (''48439100200'', 2)]\<rparr>"

definition redev_sample :: "((string, nat) boundary) cgdf" where
  "redev_sample =
    \<lparr>crs = ''EPSG:2276'',
     rows = [((\<lambda>c. ''Near Southside''), 1)],
     columns = [(''OBJECTID'', False), (''NAME'', True)]\<rparr>"

text \<open>
  A sample run of the synthesizer. The generator state is a counter, \<open>random.random()\<close>
  cycles through 0, 1/3 and 2/3, and seeding with \<open>n\<close> sets the counter to \<open>n\<close>. The one
  tract has the bounding rectangle from (0, 0) to (3, 3) and contains the points below
  the diagonal. Its Manufacturing row has 30 jobs and its Retail_Trade row 120, as in
  the scenario of the specification.
\<close>

definition seed_sample :: "int \<Rightarrow> nat" where
  "seed_sample n = nat n"

definition rand_sample :: "nat \<Rightarrow> real \<times> nat" where
  "rand_sample n = (real (n mod 3) / 3, Suc n)"

definition bounds_sample :: "nat \<Rightarrow> real \<times> real \<times> real \<times> real" where
  "bounds_sample g = (0, 0, 3, 3)"

definition contains_sample :: "nat \<Rightarrow> real \<times> real \<Rightarrow> bool" where
  "contains_sample g p = (snd p < fst p)"

definition labelled_sample :: "(nat tract_row) list" where
  "labelled_sample = [\<lparr>redev_name = ''None'', GEOID = ''48439100100'', geometry = 1\<rparr>]"

definition long_sample :: "long_row list" where
  "long_sample =
    [\<lparr>redev_name = ''None'', geoid = ''48439100100'', naics_sector = ''CNS05'',
      sector_name = Some ''Manufacturing'', jobs = 30\<rparr>,
     \<lparr>redev_name = ''None'', geoid = ''48439100100'', naics_sector = ''CNS07'',
      sector_name = Some ''Retail_Trade'', jobs = 120\<rparr>]"

definition dot_sample :: dot where
  "dot_sample =
    \<lparr>redev_name = ''None'', geoid = ''48439100100'', naics_sector = ''CNS07'',
     sector_name = Some ''Retail_Trade'', point = (2, 0)\<rparr>"

text \<open>
  An aggregated wide table of two tracts: the first has no job in any sector, the second
  has 30 Manufacturing jobs and 120 Retail_Trade jobs.
\<close>

definition lodes_sample :: "wide_row list" where
  "lodes_sample =
    [\<lparr>redev_name = ''Near Southside'', geoid = ''48439100100'', counts = (\<lambda>sec. 0)\<rparr>,
     \<lparr>redev_name = ''None'', geoid = ''48439100200'',
      counts = (\<lambda>sec. 0)(''CNS05'' := 30, ''CNS07'' := 120)\<rparr>]"

text \<open>
  The grouped difference on the two columns it reads, the group key and the value: the
  same scan as \<open>group_diff\<close>, on pairs. It serves to state what a delta column holds.
\<close>

fun diff_pairs :: "(string \<times> fval) list \<Rightarrow> (string \<times> fval) list \<Rightarrow> fval list" where
  "diff_pairs seen [] = []"
| "diff_pairs seen ((g, v) # ps) =
    (case filter (\<lambda>p. fst p = g) seen of
       [] \<Rightarrow> NaN
     | x # xs \<Rightarrow> fsub v (snd (last (x # xs)))) # diff_pairs (seen @ [(g, v)]) ps"

text \<open>
  A boundary layer with two boundaries that both meet the first sample tract, and ACS
  rows of that tract for 2021 and 2020 (in that order) with every cell 15 and 10; the
  two projections read the key columns and one delta column off a panel.
\<close>

definition redev_overlap_sample :: "((string, nat) boundary) cgdf" where
  "redev_overlap_sample =
    \<lparr>crs = ''EPSG:4326'',
     rows = [((\<lambda>c. ''Near Southside''), 1), ((\<lambda>c. ''Medical District''), 1)],
     columns = [(''OBJECTID'', False), (''NAME'', True)]\<rparr>"

definition acs_sample :: "acs_row list" where
  "acs_sample =
    [\<lparr>state = ''48'', county = ''439'', tract = ''100100'', acs_year = 2021,
      acs_num = (\<lambda>c. Fin 15)\<rparr>,
     \<lparr>state = ''48'', county = ''439'', tract = ''100100'', acs_year = 2020,
      acs_num = (\<lambda>c. Fin 10)\<rparr>]"


definition panel_column ::
  "string \<Rightarrow> error + panel_row list \<Rightarrow> error + (string \<times> int \<times> string \<times> fval) list" where
  "panel_column col res = map_sum id (map (\<lambda>r. (geoid r, year r, redev_name r, num r col))) res"

text \<open>
  A stand-in for a coordinate transformation on the numeric sample geometries (it moves
  a geometry when the two reference systems differ), and the projection of an
  attribution result on the identifier and label columns.
\<close>

definition transform_sample :: "string \<Rightarrow> string \<Rightarrow> nat \<Rightarrow> nat" where
  "transform_sample old new g = (if old = new then g else g + 1)"

definition tract_labels :: "error + ('g tract_row) gdf \<Rightarrow> error + (string \<times> string) list" where
  "tract_labels res = map_sum id (\<lambda>joined. map (\<lambda>t. (GEOID t, redev_name t)) (rows joined)) res"

text \<open>
  The placement of the dots of one row as section 4.8 of the specification words it,
  stated on the points that the generator would draw: for each dot, of the 20 points
  drawn from the bounding rectangle the first one inside the polygon is accepted, and
  the dot is skipped when there is none; the generator moves on by two numbers for each
  point up to the accepted one, or for all 20.
\<close>

fun dots_from_draws ::
  "('s \<Rightarrow> real \<times> 's) \<Rightarrow> ('g \<Rightarrow> real \<times> real \<Rightarrow> bool) \<Rightarrow> 'g \<Rightarrow> real \<times> real \<times> real \<times> real
     \<Rightarrow> nat \<Rightarrow> 's \<Rightarrow> (real \<times> real) list \<times> 's" where
  "dots_from_draws rand contains g b 0 s = ([], s)"
| "dots_from_draws rand contains g b (Suc k) s =
    (case dots_from_draws rand contains g b k
            (advance rand
               (2 * min 20 (Suc (length (takeWhile (\<lambda>q. \<not> contains g q) (draws rand b 20 s)))))
               s) of
       (ps, s') \<Rightarrow>
         ((case find (contains g) (draws rand b 20 s) of None \<Rightarrow> ps | Some q \<Rightarrow> q # ps), s'))"

section \<open>Age bands\<close>

lemma foldl_fadd_present:
  "\<forall>v \<in> set vs. v = NaN \<or> (\<exists>a. v = Fin a) \<Longrightarrow>
   foldl fadd (Fin acc) (filter (\<lambda>v. v \<noteq> NaN) vs) = Fin (acc + sum_list (map present vs))"
proof (induction vs arbitrary: acc)
  case Nil
  then show ?case by simp
next
  case (Cons v vs)
  then have rest: "\<forall>v \<in> set vs. v = NaN \<or> (\<exists>a. v = Fin a)" by simp
  from Cons.prems have "v = NaN \<or> (\<exists>a. v = Fin a)" by simp
  then show ?case
  proof
    assume "v = NaN"
    then show ?thesis using Cons.IH [OF rest, of acc] by (simp add: present_def)
  next
    assume "\<exists>a. v = Fin a"
    then obtain a where "v = Fin a" ..
    then show ?thesis using Cons.IH [OF rest, of "acc + a"]
      by (simp add: present_def add.assoc)
  qed
qed

lemma sum_axis1_present:
  "\<forall>v \<in> set vs. v = NaN \<or> (\<exists>a. v = Fin a) \<Longrightarrow>
   sum_axis1 vs = Fin (sum_list (map present vs))"
  using foldl_fadd_present [of vs 0] by (simp add: sum_axis1_def)

lemma age_cols_distinct:
  "distinct (under18_cols @ age_18_64_cols @ age_65_plus_cols)"
  by (simp add: under18_cols_def age_18_64_cols_def age_65_plus_cols_def)

lemma band_under18: "compute_age_bands df ''age_under18'' = sum_axis1 (map df under18_cols)"
  by (simp add: compute_age_bands_def Let_def)

lemma band_18_64: "compute_age_bands df ''age_18_64'' = sum_axis1 (map df age_18_64_cols)"
  by (simp add: compute_age_bands_def Let_def age_18_64_cols_def)

lemma band_65_plus: "compute_age_bands df ''age_65_plus'' = sum_axis1 (map df age_65_plus_cols)"
  by (simp add: compute_age_bands_def Let_def age_65_plus_cols_def)

text \<open>
  Claim C2, as the code has it. The three column lists are pairwise disjoint and without
  repetition, and on a row whose age cells are finite numbers or missing, each band is
  the sum of the cells of its list that are present: a missing cell counts as zero and
  does not make the band missing.
\<close>

theorem age_bands_sum_present_inputs:
  assumes "\<forall>c \<in> set (under18_cols @ age_18_64_cols @ age_65_plus_cols).
             df c = NaN \<or> (\<exists>a. df c = Fin a)"
  shows "distinct (under18_cols @ age_18_64_cols @ age_65_plus_cols)
    \<and> compute_age_bands df ''age_under18'' = Fin (\<Sum>c\<leftarrow>under18_cols. present (df c))
    \<and> compute_age_bands df ''age_18_64'' = Fin (\<Sum>c\<leftarrow>age_18_64_cols. present (df c))
    \<and> compute_age_bands df ''age_65_plus'' = Fin (\<Sum>c\<leftarrow>age_65_plus_cols. present (df c))"
proof -
  have a: "\<forall>v \<in> set (map df under18_cols). v = NaN \<or> (\<exists>a. v = Fin a)"
    using assms by auto
  have b: "\<forall>v \<in> set (map df age_18_64_cols). v = NaN \<or> (\<exists>a. v = Fin a)"
    using assms by auto
  have c: "\<forall>v \<in> set (map df age_65_plus_cols). v = NaN \<or> (\<exists>a. v = Fin a)"
    using assms by auto
  show ?thesis
    using sum_axis1_present [OF a] sum_axis1_present [OF b] sum_axis1_present [OF c]
      age_cols_distinct
    by (simp add: band_under18 band_18_64 band_65_plus comp_def)
qed

text \<open>
  The same theorem on the sample row: seven of the eight under-18 cells are present.
\<close>

theorem age_bands_sum_present_inputs_witness:
  "row_missing_under5 ''male_under5'' = NaN
   \<and> compute_age_bands row_missing_under5 ''age_under18'' = Fin 7
   \<and> compute_age_bands row_missing_under5 ''age_18_64'' = Fin 26
   \<and> compute_age_bands row_missing_under5 ''age_65_plus'' = Fin 12"
proof -
  have h: "\<forall>c \<in> set (under18_cols @ age_18_64_cols @ age_65_plus_cols).
      row_missing_under5 c = NaN \<or> (\<exists>a. row_missing_under5 c = Fin a)"
    by (simp add: row_missing_under5_def)
  have s1: "(\<Sum>c\<leftarrow>under18_cols. present (row_missing_under5 c)) = 7"
    by (simp add: under18_cols_def row_missing_under5_def present_def)
  have s2: "(\<Sum>c\<leftarrow>age_18_64_cols. present (row_missing_under5 c)) = 26"
    by (simp add: age_18_64_cols_def row_missing_under5_def present_def)
  have s3: "(\<Sum>c\<leftarrow>age_65_plus_cols. present (row_missing_under5 c)) = 12"
    by (simp add: age_65_plus_cols_def row_missing_under5_def present_def)
  have m: "row_missing_under5 ''male_under5'' = NaN"
    by (simp add: row_missing_under5_def)
  from age_bands_sum_present_inputs [OF h] s1 s2 s3 m show ?thesis by simp
qed

text \<open>
  Claim C2 as stated fails: with \<open>male_under5\<close> missing and the other seven cells 1,
  the under-18 band is 7, not missing.
\<close>

theorem age_band_missing_input_counterexample:
  "row_missing_under5 ''male_under5'' = NaN
   \<and> compute_age_bands row_missing_under5 ''age_under18'' = Fin 7"
  by (simp add: row_missing_under5_def band_under18 sum_axis1_def under18_cols_def)

section \<open>Rates\<close>

lemma compute_rates_parts:
  "compute_rates df ''poverty_rate'' = fdiv (df ''poverty_pop'') (df ''poverty_total'')"
  "compute_rates df ''owner_rate'' =
     fdiv (df ''owner_occ'') (fadd (df ''owner_occ'') (df ''renter_occ''))"
  "compute_rates df ''renter_rate'' =
     fdiv (df ''renter_occ'') (fadd (df ''owner_occ'') (df ''renter_occ''))"
  "compute_rates df ''ba_plus_rate'' =
     fdiv (fadd (fadd (fadd (df ''edu_ba'') (df ''edu_ma'')) (df ''edu_prof'')) (df ''edu_phd''))
       (df ''edu_total_25plus'')"
  "compute_rates df ''hispanic_rate'' = fdiv (df ''race_hispanic'') (df ''race_total'')"
  by (simp_all add: compute_rates_def Let_def)

lemma fdiv_missing_divisor: "fdiv n NaN = NaN"
  by (cases n) simp_all

lemma fdiv_zero_divisor:
  "fdiv n (Fin 0) =
    (case n of NaN \<Rightarrow> NaN | PInf \<Rightarrow> PInf | NInf \<Rightarrow> NInf
     | Fin a \<Rightarrow> if a = 0 then NaN else if 0 < a then PInf else NInf)"
  by (cases n) simp_all

text \<open>
  Claim C9, as the code has it. \<open>compute_rates\<close> is a total function with no error
  result: the division of two columns never raises. Each of the five rates is the
  quotient of its numerator and denominator; a missing denominator gives NaN; a zero
  denominator gives NaN when the numerator is zero or missing, and a signed infinity
  when the numerator is a nonzero number.
\<close>

theorem rates_zero_or_missing_denominator:
  "\<forall>(name, n, d) \<in> set (rate_parts df).
     compute_rates df name = fdiv n d
     \<and> (d = NaN \<longrightarrow> compute_rates df name = NaN)
     \<and> (d = Fin 0 \<and> (n = Fin 0 \<or> n = NaN) \<longrightarrow> compute_rates df name = NaN)
     \<and> (\<forall>a. d = Fin 0 \<and> n = Fin a \<and> 0 < a \<longrightarrow> compute_rates df name = PInf)
     \<and> (\<forall>a. d = Fin 0 \<and> n = Fin a \<and> a < 0 \<longrightarrow> compute_rates df name = NInf)"
  by (auto simp: rate_parts_def compute_rates_parts fdiv_missing_divisor fdiv_zero_divisor)

text \<open>
  The scenario of the specification: 0 / 0 is undefined, 40 / (40 + 60) is 0.4 and
  60 / (40 + 60) is 0.6; a missing denominator gives an undefined rate.
\<close>

theorem rates_zero_or_missing_denominator_witness:
  "compute_rates row_scenario ''poverty_rate'' = NaN
   \<and> compute_rates row_scenario ''owner_rate'' = Fin (2 / 5)
   \<and> compute_rates row_scenario ''renter_rate'' = Fin (3 / 5)
   \<and> compute_rates row_scenario ''hispanic_rate'' = NaN"
proof -
  have "\<forall>(name, n, d) \<in> set (rate_parts row_scenario).
          compute_rates row_scenario name = fdiv n d"
    using rates_zero_or_missing_denominator [of row_scenario] by fastforce
  then show ?thesis
    by (simp add: rate_parts_def row_scenario_def)
qed

text \<open>
  Claim C9 as stated fails: a zero denominator under a nonzero numerator gives plus
  infinity, which is not the undefined value.
\<close>

theorem poverty_rate_zero_denominator_counterexample:
  "row_empty_universe ''poverty_total'' = Fin 0
   \<and> compute_rates row_empty_universe ''poverty_rate'' = PInf"
  by (simp add: row_empty_universe_def compute_rates_parts)

section \<open>Spatial attribution\<close>

lemma pick_name_column_total:
  "cols \<noteq> [] \<Longrightarrow> \<exists>col. pick_name_column cols = Inr col"
  by (cases cols) (auto simp: pick_name_column_def split: option.splits prod.splits)

lemma list_case_whole:
  "(case xs of [] \<Rightarrow> a | y # ys \<Rightarrow> f (y # ys)) = (if xs = [] then a else f xs)"
  by (cases xs) simp_all

lemma sjoin_unfold:
  "sjoin intersects left right =
    concat (map (\<lambda>(gid, g).
      if filter (\<lambda>(name, h). intersects g h) (rows right) = [] then [(gid, g, None)]
      else map (\<lambda>(name, h). (gid, g, Some name))
             (filter (\<lambda>(name, h). intersects g h) (rows right))) (rows left))"
  unfolding sjoin_def list_case_whole ..

lemma sjoin_one:
  "(gid', g', v) \<in> set (if filter (\<lambda>(name, h). intersects g h) rs = [] then [(gid, g, None)]
      else map (\<lambda>(name, h). (gid, g, Some name)) (filter (\<lambda>(name, h). intersects g h) rs))
   \<longleftrightarrow> gid' = gid \<and> g' = g \<and>
     (case v of
        None \<Rightarrow> \<forall>(name, h) \<in> set rs. \<not> intersects g h
      | Some name \<Rightarrow> \<exists>h. (name, h) \<in> set rs \<and> intersects g h)"
  by (cases v) (auto simp: filter_empty_conv split: if_splits)

lemma sjoin_member:
  "(gid, g, v) \<in> set (sjoin intersects left right) \<longleftrightarrow>
     (gid, g) \<in> set (rows left) \<and>
     (case v of
        None \<Rightarrow> \<forall>(name, h) \<in> set (rows right). \<not> intersects g h
      | Some name \<Rightarrow> \<exists>h. (name, h) \<in> set (rows right) \<and> intersects g h)"
proof -
  have "(gid, g, v) \<in> set (sjoin intersects left right) \<longleftrightarrow>
    (\<exists>l \<in> set (rows left). (gid, g, v) \<in> set (case l of (gid, g) \<Rightarrow>
      if filter (\<lambda>(name, h). intersects g h) (rows right) = [] then [(gid, g, None)]
      else map (\<lambda>(name, h). (gid, g, Some name))
             (filter (\<lambda>(name, h). intersects g h) (rows right))))"
    unfolding sjoin_unfold by simp
  also have "\<dots> \<longleftrightarrow> (\<exists>l \<in> set (rows left). l = (gid, g) \<and>
     (case v of
        None \<Rightarrow> \<forall>(name, h) \<in> set (rows right). \<not> intersects g h
      | Some name \<Rightarrow> \<exists>h. (name, h) \<in> set (rows right) \<and> intersects g h))"
    by (rule bex_cong [OF refl]) (auto simp only: sjoin_one split: prod.splits)
  finally show ?thesis by blast
qed

lemma add_redev_rows:
  assumes "add_redev_to_tracts astype_str intersects tracts redev = Inr joined"
  obtains name_col where "pick_name_column (columns redev) = Inr name_col"
    and "crs joined = crs tracts"
    and "rows joined = map (\<lambda>(gid, g, name).
            \<lparr>redev_name = fillna ''None'' name, GEOID = gid, geometry = g\<rparr>)
          (sjoin intersects tracts
             \<lparr>crs = crs redev,
              rows = map (\<lambda>(cells, g). (astype_str (cells name_col), g)) (rows redev)\<rparr>)"
  using assms
  by (auto simp: add_redev_to_tracts_def redev_for_join_def split: sum.splits)

text \<open>
  Claim C8. On a boundary layer with at least one column (a layer read from a file has
  its geometry column) the attribution succeeds; the tracts of the result are exactly
  the input tracts, so every tract is retained; and every label is a string: the
  sentinel \<open>None\<close> for a tract that no boundary intersects, and otherwise the text of the
  resolved name column's cell of a boundary that the tract intersects.
\<close>

theorem attribution_retains_tracts:
  assumes "columns redev \<noteq> []"
  shows "\<exists>joined name_col.
     add_redev_to_tracts astype_str intersects tracts redev = Inr joined
     \<and> pick_name_column (columns redev) = Inr name_col
     \<and> (\<lambda>t. (GEOID t, geometry t)) ` set (rows joined) = set (rows tracts)
     \<and> (\<forall>t \<in> set (rows joined).
          (redev_name t = ''None''
             \<and> (\<forall>(cells, h) \<in> set (rows redev). \<not> intersects (geometry t) h))
          \<or> (\<exists>(cells, h) \<in> set (rows redev).
                intersects (geometry t) h \<and> redev_name t = astype_str (cells name_col)))"
proof -
  from pick_name_column_total [OF assms] obtain name_col
    where pick: "pick_name_column (columns redev) = Inr name_col" ..
  define redev2 :: "(string \<times> 'b) gdf" where "redev2 =
    \<lparr>crs = crs redev,
     rows = map (\<lambda>(cells, g). (astype_str (cells name_col), g)) (rows redev)\<rparr>"
  define joined :: "('b tract_row) gdf" where "joined =
    \<lparr>crs = crs tracts,
     rows = map (\<lambda>(gid, g, name).
              \<lparr>redev_name = fillna ''None'' name, GEOID = gid, geometry = g\<rparr>)
            (sjoin intersects tracts redev2)\<rparr>"
  have run: "add_redev_to_tracts astype_str intersects tracts redev = Inr joined"
    by (simp add: add_redev_to_tracts_def redev_for_join_def pick joined_def redev2_def)
  have keep: "(\<lambda>t. (GEOID t, geometry t)) ` set (rows joined) = set (rows tracts)"
  proof
    show "(\<lambda>t. (GEOID t, geometry t)) ` set (rows joined) \<subseteq> set (rows tracts)"
      by (auto simp: joined_def sjoin_member)
  next
    show "set (rows tracts) \<subseteq> (\<lambda>t. (GEOID t, geometry t)) ` set (rows joined)"
    proof
      fix x assume x: "x \<in> set (rows tracts)"
      obtain gid g where xg: "x = (gid, g)" by (cases x)
      show "x \<in> (\<lambda>t. (GEOID t, geometry t)) ` set (rows joined)"
      proof (cases "\<exists>(name, h) \<in> set (rows redev2). intersects g h")
        case True
        then obtain name h where "(name, h) \<in> set (rows redev2)" "intersects g h" by auto
        then have "(gid, g, Some name) \<in> set (sjoin intersects tracts redev2)"
          using x xg by (auto simp: sjoin_member)
        then show ?thesis unfolding joined_def xg by force
      next
        case False
        then have "(gid, g, None) \<in> set (sjoin intersects tracts redev2)"
          using x xg by (auto simp: sjoin_member)
        then show ?thesis unfolding joined_def xg by force
      qed
    qed
  qed
  have labels: "\<forall>t \<in> set (rows joined).
          (redev_name t = ''None''
             \<and> (\<forall>(cells, h) \<in> set (rows redev). \<not> intersects (geometry t) h))
          \<or> (\<exists>(cells, h) \<in> set (rows redev).
                intersects (geometry t) h \<and> redev_name t = astype_str (cells name_col))"
  proof
    fix t assume "t \<in> set (rows joined)"
    then obtain gid g v where t: "t = \<lparr>redev_name = fillna ''None'' v, GEOID = gid, geometry = g\<rparr>"
      and m: "(gid, g, v) \<in> set (sjoin intersects tracts redev2)"
      by (auto simp: joined_def)
    show "(redev_name t = ''None''
             \<and> (\<forall>(cells, h) \<in> set (rows redev). \<not> intersects (geometry t) h))
          \<or> (\<exists>(cells, h) \<in> set (rows redev).
                intersects (geometry t) h \<and> redev_name t = astype_str (cells name_col))"
    proof (cases v)
      case None
      with m have "\<forall>(name, h) \<in> set (rows redev2). \<not> intersects g h"
        by (simp add: sjoin_member)
      then have "\<forall>(cells, h) \<in> set (rows redev). \<not> intersects g h"
        by (force simp: redev2_def)
      with None t show ?thesis by (simp add: fillna_def)
    next
      case (Some name)
      with m obtain h where "(name, h) \<in> set (rows redev2)" "intersects g h"
        by (auto simp: sjoin_member)
      then obtain cells where "(cells, h) \<in> set (rows redev)" "name = astype_str (cells name_col)"
        by (auto simp: redev2_def)
      with Some t \<open>intersects g h\<close> show ?thesis by (force simp: fillna_def)
    qed
  qed
  from run pick keep labels show ?thesis by blast
qed


text \<open>On the sample layers: the name column is \<open>NAME\<close>, and the second tract gets the sentinel.\<close>

theorem attribution_retains_tracts_witness:
  "\<exists>joined. add_redev_to_tracts (\<lambda>v. v) (=) tracts_sample redev_sample = Inr joined
     \<and> pick_name_column (columns redev_sample) = Inr ''NAME''
     \<and> map (\<lambda>t. (GEOID t, redev_name t)) (rows joined) =
         [(''48439100100'', ''Near Southside''), (''48439100200'', ''None'')]"
proof -
  have ne: "columns redev_sample \<noteq> []" by (simp add: redev_sample_def)
  from attribution_retains_tracts [OF ne, of "\<lambda>v. v" "(=)" tracts_sample]
  obtain joined where run: "add_redev_to_tracts (\<lambda>v. v) (=) tracts_sample redev_sample = Inr joined"
    by blast
  have pick0: "pick_name_column [(''OBJECTID'', False), (''NAME'', True)] = Inr ''NAME''"
    by (simp add: pick_name_column_def candidates_def)
  then have pick: "pick_name_column (columns redev_sample) = Inr ''NAME''"
    by (simp add: redev_sample_def)
  have "add_redev_to_tracts (\<lambda>v. v) (=) tracts_sample redev_sample =
      Inr \<lparr>crs = ''EPSG:4326'',
           rows = [\<lparr>redev_name = ''Near Southside'', GEOID = ''48439100100'', geometry = 1\<rparr>,
                   \<lparr>redev_name = ''None'', GEOID = ''48439100200'', geometry = 2\<rparr>]\<rparr>"
    by (simp add: add_redev_to_tracts_def redev_for_join_def pick0 sjoin_def fillna_def
        tracts_sample_def redev_sample_def)
  with run pick show ?thesis by auto
qed

lemma redev_for_join_crs_update:
  "map_sum id rows (redev_for_join astype_str (redev\<lparr>crs := c\<rparr>)) =
   map_sum id rows (redev_for_join astype_str redev)"
  by (simp add: redev_for_join_def split: sum.splits)

lemma sjoin_reads_rows_only:
  "rows left = rows left' \<Longrightarrow> rows right = rows right' \<Longrightarrow>
   sjoin intersects left right = sjoin intersects left' right'"
  by (simp add: sjoin_def)

lemma add_redev_crs_update:
  "map_sum id rows (add_redev_to_tracts astype_str intersects (tracts\<lparr>crs := c1\<rparr>)
      (redev\<lparr>crs := c2\<rparr>)) =
   map_sum id rows (add_redev_to_tracts astype_str intersects tracts redev)"
proof (cases "pick_name_column (columns redev)")
  case (Inl e)
  then show ?thesis by (simp add: add_redev_to_tracts_def redev_for_join_def)
next
  case (Inr name_col)
  have "sjoin intersects (tracts\<lparr>crs := c1\<rparr>)
          \<lparr>crs = c2, rows = map (\<lambda>(cells, g). (astype_str (cells name_col), g)) (rows redev)\<rparr> =
        sjoin intersects tracts
          \<lparr>crs = crs redev,
           rows = map (\<lambda>(cells, g). (astype_str (cells name_col), g)) (rows redev)\<rparr>"
    by (rule sjoin_reads_rows_only) simp_all
  with Inr show ?thesis by (simp add: add_redev_to_tracts_def redev_for_join_def)
qed

text \<open>
  Claim C3, as the code has it. \<open>add_redev_to_tracts\<close> does not reproject. Its rows do
  not depend on the reference system of either layer; when it succeeds, they are the
  rows of the intersects join of the tracts with the boundary geometries as they were
  read, and the result keeps the tracts' reference system. The two layers agree on one
  reference system at the join when both come from the staging step, which writes each
  of them in EPSG:4326: then the join is taken between the staged tracts and the
  boundary geometries transformed to EPSG:4326.
\<close>

theorem attributor_joins_geometries_as_read:
  "map_sum id rows (add_redev_to_tracts astype_str intersects (tracts\<lparr>crs := c1\<rparr>)
      (redev\<lparr>crs := c2\<rparr>)) =
   map_sum id rows (add_redev_to_tracts astype_str intersects tracts redev)
   \<and> (\<forall>joined. add_redev_to_tracts astype_str intersects tracts redev = Inr joined \<longrightarrow>
        crs joined = crs tracts
        \<and> (\<exists>name_col. pick_name_column (columns redev) = Inr name_col
             \<and> rows joined =
                 map (\<lambda>(gid, g, name).
                        \<lparr>redev_name = fillna ''None'' name, GEOID = gid, geometry = g\<rparr>)
                   (sjoin intersects tracts
                      \<lparr>crs = crs redev,
                       rows = map (\<lambda>(cells, g). (astype_str (cells name_col), g))
                                (rows redev)\<rparr>)))
   \<and> (\<forall>joined. add_redev_to_tracts astype_str intersects
          (download_tracts transform tsrc) (read_redev_boundaries transform src) = Inr joined \<longrightarrow>
        crs joined = ''EPSG:4326''
        \<and> crs (read_redev_boundaries transform src) = crs (download_tracts transform tsrc)
        \<and> (\<exists>name_col. pick_name_column (columns src) = Inr name_col
             \<and> rows joined =
                 map (\<lambda>(gid, g, name).
                        \<lparr>redev_name = fillna ''None'' name, GEOID = gid, geometry = g\<rparr>)
                   (sjoin intersects (download_tracts transform tsrc)
                      \<lparr>crs = ''EPSG:4326'',
                       rows = map (\<lambda>(cells, g).
                                 (astype_str (cells name_col),
                                  transform (crs src) ''EPSG:4326'' g)) (rows src)\<rparr>)))"
proof (intro conjI allI impI)
  show "map_sum id rows (add_redev_to_tracts astype_str intersects (tracts\<lparr>crs := c1\<rparr>)
      (redev\<lparr>crs := c2\<rparr>)) =
   map_sum id rows (add_redev_to_tracts astype_str intersects tracts redev)"
    by (rule add_redev_crs_update)
next
  fix joined
  assume "add_redev_to_tracts astype_str intersects tracts redev = Inr joined"
  then show "crs joined = crs tracts"
    by (auto simp: add_redev_to_tracts_def split: sum.splits)
next
  fix joined
  assume run: "add_redev_to_tracts astype_str intersects tracts redev = Inr joined"
  from run obtain name_col where "pick_name_column (columns redev) = Inr name_col"
    and "rows joined = map (\<lambda>(gid, g, name).
            \<lparr>redev_name = fillna ''None'' name, GEOID = gid, geometry = g\<rparr>)
          (sjoin intersects tracts
             \<lparr>crs = crs redev,
              rows = map (\<lambda>(cells, g). (astype_str (cells name_col), g)) (rows redev)\<rparr>)"
    by (rule add_redev_rows)
  then show "\<exists>name_col. pick_name_column (columns redev) = Inr name_col
             \<and> rows joined =
                 map (\<lambda>(gid, g, name).
                        \<lparr>redev_name = fillna ''None'' name, GEOID = gid, geometry = g\<rparr>)
                   (sjoin intersects tracts
                      \<lparr>crs = crs redev,
                       rows = map (\<lambda>(cells, g). (astype_str (cells name_col), g))
                                (rows redev)\<rparr>)"
    by blast
next
  fix joined
  assume "add_redev_to_tracts astype_str intersects
          (download_tracts transform tsrc) (read_redev_boundaries transform src) = Inr joined"
  then show "crs joined = ''EPSG:4326''"
    by (auto simp: add_redev_to_tracts_def download_tracts_def to_crs_def split: sum.splits)
next
  fix joined
  show "crs (read_redev_boundaries transform src) = crs (download_tracts transform tsrc)"
    by (simp add: read_redev_boundaries_def download_tracts_def to_crs_def)
next
  fix joined
  assume run: "add_redev_to_tracts astype_str intersects
          (download_tracts transform tsrc) (read_redev_boundaries transform src) = Inr joined"
  from run obtain name_col where
    pick: "pick_name_column (columns (read_redev_boundaries transform src)) = Inr name_col"
    and r: "rows joined = map (\<lambda>(gid, g, name).
            \<lparr>redev_name = fillna ''None'' name, GEOID = gid, geometry = g\<rparr>)
          (sjoin intersects (download_tracts transform tsrc)
             \<lparr>crs = crs (read_redev_boundaries transform src),
              rows = map (\<lambda>(cells, g). (astype_str (cells name_col), g))
                       (rows (read_redev_boundaries transform src))\<rparr>)"
    by (rule add_redev_rows)
  have cols: "columns (read_redev_boundaries transform src) = columns src"
    by (simp add: read_redev_boundaries_def to_crs_def)
  have rws: "\<lparr>crs = crs (read_redev_boundaries transform src),
              rows = map (\<lambda>(cells, g). (astype_str (cells name_col), g))
                       (rows (read_redev_boundaries transform src))\<rparr> =
        \<lparr>crs = ''EPSG:4326'',
         rows = map (\<lambda>(cells, g).
                   (astype_str (cells name_col), transform (crs src) ''EPSG:4326'' g)) (rows src)\<rparr>"
    by (simp add: read_redev_boundaries_def to_crs_def comp_def case_prod_unfold)
  from pick r show "\<exists>name_col. pick_name_column (columns src) = Inr name_col
             \<and> rows joined =
                 map (\<lambda>(gid, g, name).
                        \<lparr>redev_name = fillna ''None'' name, GEOID = gid, geometry = g\<rparr>)
                   (sjoin intersects (download_tracts transform tsrc)
                      \<lparr>crs = ''EPSG:4326'',
                       rows = map (\<lambda>(cells, g).
                                 (astype_str (cells name_col),
                                  transform (crs src) ''EPSG:4326'' g)) (rows src)\<rparr>)"
    unfolding cols rws by blast
qed

lemma labels_as_read:
  "tract_labels (add_redev_to_tracts id (=) tracts_sample redev_sample) =
     Inr [(''48439100100'', ''Near Southside''), (''48439100200'', ''None'')]"
  by code_simp

lemma labels_reprojected:
  "tract_labels (add_redev_to_tracts id (=) tracts_sample
       (to_crs transform_sample ''EPSG:4326'' redev_sample)) =
     Inr [(''48439100100'', ''None''), (''48439100200'', ''Near Southside'')]"
  by code_simp

lemma labels_staged:
  "tract_labels (add_redev_to_tracts id (=) (download_tracts transform_sample tracts_sample)
       (read_redev_boundaries transform_sample redev_sample)) =
     Inr [(''48439100100'', ''None''), (''48439100200'', ''Near Southside'')]"
  by code_simp

text \<open>
  Claim C3 as stated fails. The sample layers differ in their reference systems, and
  the function labels the tracts by the boundary geometry as read (the first tract meets
  it); the join against the boundary reprojected into the tracts' reference system
  would label the second tract instead.
\<close>

theorem attributor_without_reprojection_counterexample:
  "crs tracts_sample = ''EPSG:4326'' \<and> crs redev_sample = ''EPSG:2276''
   \<and> tract_labels (add_redev_to_tracts id (=) tracts_sample redev_sample) =
       Inr [(''48439100100'', ''Near Southside''), (''48439100200'', ''None'')]
   \<and> tract_labels (add_redev_to_tracts id (=) tracts_sample
         (to_crs transform_sample ''EPSG:4326'' redev_sample)) =
       Inr [(''48439100100'', ''None''), (''48439100200'', ''Near Southside'')]"
  using labels_as_read labels_reprojected
  by (simp add: tracts_sample_def redev_sample_def)


lemma rows_as_read:
  "map_sum id rows (add_redev_to_tracts id (=) tracts_sample redev_sample) =
     Inr [\<lparr>redev_name = ''Near Southside'', GEOID = ''48439100100'', geometry = 1\<rparr>,
          \<lparr>redev_name = ''None'', GEOID = ''48439100200'', geometry = 2\<rparr>]"
  by code_simp

text \<open>
  On the sample layers: swapping the two reference systems leaves the rows as they
  were, and after staging both layers are in EPSG:4326 and the second tract, not the
  first, meets the boundary.
\<close>

theorem attributor_joins_geometries_as_read_witness:
  "map_sum id rows (add_redev_to_tracts id (=) (tracts_sample\<lparr>crs := ''EPSG:2276''\<rparr>)
       (redev_sample\<lparr>crs := ''EPSG:4326''\<rparr>)) =
     Inr [\<lparr>redev_name = ''Near Southside'', GEOID = ''48439100100'', geometry = 1\<rparr>,
          \<lparr>redev_name = ''None'', GEOID = ''48439100200'', geometry = 2\<rparr>]
   \<and> (\<exists>joined. add_redev_to_tracts id (=) (download_tracts transform_sample tracts_sample)
          (read_redev_boundaries transform_sample redev_sample) = Inr joined
        \<and> crs joined = ''EPSG:4326''
        \<and> crs (read_redev_boundaries transform_sample redev_sample) =
            crs (download_tracts transform_sample tracts_sample)
        \<and> map (\<lambda>t. (GEOID t, redev_name t)) (rows joined) =
            [(''48439100100'', ''None''), (''48439100200'', ''Near Southside'')])"
proof -
  note t = attributor_joins_geometries_as_read
    [where astype_str = id and intersects = "(=)" and tracts = tracts_sample
       and ?c1.0 = "''EPSG:2276''" and redev = redev_sample and ?c2.0 = "''EPSG:4326''"
       and transform = transform_sample and tsrc = tracts_sample and src = redev_sample]
  from t have a: "map_sum id rows (add_redev_to_tracts id (=)
       (tracts_sample\<lparr>crs := ''EPSG:2276''\<rparr>) (redev_sample\<lparr>crs := ''EPSG:4326''\<rparr>)) =
     map_sum id rows (add_redev_to_tracts id (=) tracts_sample redev_sample)"
    by (rule conjunct1)
  obtain joined where run: "add_redev_to_tracts id (=)
      (download_tracts transform_sample tracts_sample)
      (read_redev_boundaries transform_sample redev_sample) = Inr joined"
    and l: "map (\<lambda>t. (GEOID t, redev_name t)) (rows joined) =
            [(''48439100100'', ''None''), (''48439100200'', ''Near Southside'')]"
    using labels_staged unfolding tract_labels_def
    by (cases "add_redev_to_tracts id (=) (download_tracts transform_sample tracts_sample)
          (read_redev_boundaries transform_sample redev_sample)") auto
  from t run have c: "crs joined = ''EPSG:4326''
      \<and> crs (read_redev_boundaries transform_sample redev_sample) =
            crs (download_tracts transform_sample tracts_sample)"
    by blast
  from a rows_as_read run l c show ?thesis by (iprover intro: exI conjI trans)
qed

section \<open>Dot-density synthesizer\<close>

lemma dot_count_floor:
  "dot_count j = min \<lfloor>real_of_int j / 50\<rfloor> 250"
proof -
  have "\<lfloor>real_of_int j / 50\<rfloor> = j div 50"
    using floor_divide_of_int_eq [of j 50, where ?'a = real] by simp
  then show ?thesis by (simp add: dot_count_def jobs_per_dot_def max_dots_per_tract_def)
qed

lemma dot_count_le: "dot_count j \<le> 250"
  by (simp add: dot_count_def max_dots_per_tract_def)

lemma length_place_dots:
  "place_dots rand contains g b k s = (ps, s') \<Longrightarrow> length ps \<le> k"
proof (induction k arbitrary: s ps s')
  case 0
  then show ?case by simp
next
  case (Suc k)
  obtain p s1 where a: "attempt_loop rand contains g b 20 s = (p, s1)" by (cases "attempt_loop rand contains g b 20 s")
  obtain qs s2 where r: "place_dots rand contains g b k s1 = (qs, s2)" by (cases "place_dots rand contains g b k s1")
  from Suc.IH [OF r] have "length qs \<le> k" .
  with Suc.prems a r show ?case by (cases p) auto
qed

lemma attempt_loop_inside:
  "attempt_loop rand contains g b n s = (Some q, s') \<Longrightarrow> contains g q"
proof (induction n arbitrary: s)
  case 0
  then show ?case by simp
next
  case (Suc n)
  then show ?case
    by (auto split: prod.splits if_splits)
qed

lemma place_dots_inside:
  "place_dots rand contains g b k s = (ps, s') \<Longrightarrow> \<forall>q \<in> set ps. contains g q"
proof (induction k arbitrary: s ps s')
  case 0
  then show ?case by simp
next
  case (Suc k)
  obtain p s1 where a: "attempt_loop rand contains g b 20 s = (p, s1)" by (cases "attempt_loop rand contains g b 20 s")
  obtain qs s2 where r: "place_dots rand contains g b k s1 = (qs, s2)" by (cases "place_dots rand contains g b k s1")
  from Suc.IH [OF r] have "\<forall>q \<in> set qs. contains g q" .
  with Suc.prems a r attempt_loop_inside [of rand contains g b 20 s _ s1] show ?case
    by (cases p) auto
qed

text \<open>What one pass of the loop body yields.\<close>

lemma row_dots_cases:
  assumes "row_dots rand bounds contains tracts r s = Inr (ds, s')"
  shows "(ds = [] \<and> (jobs r \<le> 0 \<or> nat (dot_count (jobs r)) = 0))
    \<or> (0 < jobs r \<and> (\<exists>t ps. filter (\<lambda>t. GEOID t = geoid r) tracts = [t]
          \<and> place_dots rand contains (geometry t) (bounds (geometry t))
               (nat (dot_count (jobs r))) s = (ps, s')
          \<and> ds = map (mk_dot r) ps))"
proof (cases "jobs r \<le> 0")
  case True
  with assms show ?thesis by (simp add: row_dots_def)
next
  case False
  show ?thesis
  proof (cases "filter (\<lambda>t. GEOID t = geoid r) tracts")
    case Nil
    with False assms show ?thesis by (simp add: row_dots_def loc_geometry_def)
  next
    case (Cons t ts)
    show ?thesis
    proof (cases ts)
      case Nil
      with Cons False assms show ?thesis
        by (auto simp: row_dots_def loc_geometry_def split: prod.splits)
    next
      case (Cons t2 ts2)
      with \<open>filter (\<lambda>t. GEOID t = geoid r) tracts = t # ts\<close> False assms show ?thesis
        by (auto simp: row_dots_def loc_geometry_def split: if_splits)
    qed
  qed
qed

lemma dots_loop_rows:
  "dots_loop rand bounds contains tracts rs acc s = Inr (dots, s') \<Longrightarrow>
   \<exists>dss. dots = acc @ concat dss \<and>
     list_all2 (\<lambda>r ds. \<exists>s1 s2. row_dots rand bounds contains tracts r s1 = Inr (ds, s2)) rs dss"
proof (induction rs arbitrary: acc s)
  case Nil
  then show ?case by simp
next
  case (Cons r rs)
  from Cons.prems obtain ds s1 where
    row: "row_dots rand bounds contains tracts r s = Inr (ds, s1)"
    and rest: "dots_loop rand bounds contains tracts rs (acc @ ds) s1 = Inr (dots, s')"
    by (auto split: sum.splits)
  from Cons.IH [OF rest] obtain dss where
    "dots = (acc @ ds) @ concat dss"
    "list_all2 (\<lambda>r ds. \<exists>s1 s2. row_dots rand bounds contains tracts r s1 = Inr (ds, s2)) rs dss"
    by blast
  with row have "dots = acc @ concat (ds # dss) \<and>
     list_all2 (\<lambda>r ds. \<exists>s1 s2. row_dots rand bounds contains tracts r s1 = Inr (ds, s2))
       (r # rs) (ds # dss)"
    by auto
  then show ?case by blast
qed

lemma row_dots_bound:
  assumes "row_dots rand bounds contains tracts r s = Inr (ds, s')"
  shows "(\<forall>d \<in> set ds. geoid d = geoid r \<and> naics_sector d = naics_sector r)
     \<and> (0 < jobs r \<longrightarrow> int (length ds) \<le> dot_count (jobs r))
     \<and> length ds \<le> 250
     \<and> (jobs r \<le> 0 \<or> \<lfloor>real_of_int (jobs r) / 50\<rfloor> = 0 \<longrightarrow> ds = [])"
proof -
  from row_dots_cases [OF assms] show ?thesis
  proof
    assume a: "ds = [] \<and> (jobs r \<le> 0 \<or> nat (dot_count (jobs r)) = 0)"
    then show ?thesis
      by (auto simp: dot_count_def jobs_per_dot_def max_dots_per_tract_def)
  next
    assume "0 < jobs r \<and> (\<exists>t ps. filter (\<lambda>t. GEOID t = geoid r) tracts = [t]
          \<and> place_dots rand contains (geometry t) (bounds (geometry t))
               (nat (dot_count (jobs r))) s = (ps, s')
          \<and> ds = map (mk_dot r) ps)"
    then obtain t ps where pos: "0 < jobs r"
      and ft: "filter (\<lambda>t. GEOID t = geoid r) tracts = [t]"
      and pl: "place_dots rand contains (geometry t) (bounds (geometry t))
               (nat (dot_count (jobs r))) s = (ps, s')"
      and ds: "ds = map (mk_dot r) ps" by blast
    from length_place_dots [OF pl] have len: "length ps \<le> nat (dot_count (jobs r))" .
    have nonneg: "0 \<le> dot_count (jobs r)"
      using pos by (simp add: dot_count_def jobs_per_dot_def max_dots_per_tract_def
          pos_imp_zdiv_nonneg_iff)
    have fl: "\<lfloor>real_of_int (jobs r) / 50\<rfloor> = 0 \<Longrightarrow> dot_count (jobs r) = 0"
      by (simp add: dot_count_floor)
    from len nonneg dot_count_le [of "jobs r"] pos ds fl show ?thesis
      by (auto simp: mk_dot_def)
  qed
qed

text \<open>
  Claim C5. When the synthesis pass returns, its dots are the concatenation of one list
  per row of the long table, in order. The dots of a row carry its tract and sector; for
  a row with positive job count the target is min(floor(jobs / 50), 250) and the row has
  at most that many dots; no row has more than 250; and a row with jobs at most 0 or
  with floor(jobs / 50) = 0 has none.
\<close>

theorem dot_count_capped:
  assumes "synthesize_dots seed rand bounds contains tracts long_df s = Inr (dots, s')"
  shows "\<exists>dss. dots = concat dss \<and>
     list_all2 (\<lambda>r ds.
         (\<forall>d \<in> set ds. geoid d = geoid r \<and> naics_sector d = naics_sector r)
       \<and> (0 < jobs r \<longrightarrow> dot_count (jobs r) = min \<lfloor>real_of_int (jobs r) / 50\<rfloor> 250
                          \<and> int (length ds) \<le> dot_count (jobs r))
       \<and> length ds \<le> 250
       \<and> (jobs r \<le> 0 \<or> \<lfloor>real_of_int (jobs r) / 50\<rfloor> = 0 \<longrightarrow> ds = [])) long_df dss"
proof -
  from assms dots_loop_rows [of rand bounds contains tracts long_df "[]" "seed 42" dots s']
  obtain dss where cat: "dots = concat dss"
    and all: "list_all2 (\<lambda>r ds. \<exists>s1 s2. row_dots rand bounds contains tracts r s1 = Inr (ds, s2))
       long_df dss"
    by (auto simp: synthesize_dots_def random_seed_def)
  have "list_all2 (\<lambda>r ds.
         (\<forall>d \<in> set ds. geoid d = geoid r \<and> naics_sector d = naics_sector r)
       \<and> (0 < jobs r \<longrightarrow> dot_count (jobs r) = min \<lfloor>real_of_int (jobs r) / 50\<rfloor> 250
                          \<and> int (length ds) \<le> dot_count (jobs r))
       \<and> length ds \<le> 250
       \<and> (jobs r \<le> 0 \<or> \<lfloor>real_of_int (jobs r) / 50\<rfloor> = 0 \<longrightarrow> ds = [])) long_df dss"
    using all
  proof (rule list_all2_mono)
    fix r ds
    assume "\<exists>s1 s2. row_dots rand bounds contains tracts r s1 = Inr (ds, s2)"
    then obtain s1 s2 where "row_dots rand bounds contains tracts r s1 = Inr (ds, s2)" by blast
    from row_dots_bound [OF this] dot_count_floor [of "jobs r"]
    show "(\<forall>d \<in> set ds. geoid d = geoid r \<and> naics_sector d = naics_sector r)
       \<and> (0 < jobs r \<longrightarrow> dot_count (jobs r) = min \<lfloor>real_of_int (jobs r) / 50\<rfloor> 250
                          \<and> int (length ds) \<le> dot_count (jobs r))
       \<and> length ds \<le> 250
       \<and> (jobs r \<le> 0 \<or> \<lfloor>real_of_int (jobs r) / 50\<rfloor> = 0 \<longrightarrow> ds = [])"
      by blast
  qed
  with cat show ?thesis by blast
qed


lemma synthesize_sample:
  "synthesize_dots seed_sample rand_sample bounds_sample contains_sample labelled_sample
     long_sample 7 = Inr ([dot_sample, dot_sample], 52)"
  by code_simp

lemma snd_uniform: "snd (uniform rand a b s) = snd (rand s)"
  by (simp add: uniform_def split: prod.splits)

lemma advance_two:
  "advance rand (2 * Suc k) s = advance rand (2 * k) (snd (rand (snd (rand s))))"
  by simp

lemma attempt_loop_draws:
  "attempt_loop rand contains g b n s =
    (find (contains g) (draws rand b n s),
     advance rand (2 * min n (Suc (length (takeWhile (\<lambda>q. \<not> contains g q) (draws rand b n s))))) s)"
proof (induction n arbitrary: s)
  case 0
  then show ?case by simp
next
  case (Suc n)
  obtain minx miny maxx maxy where b: "b = (minx, miny, maxx, maxy)" by (cases b) auto
  obtain x s1 where u1: "uniform rand minx maxx s = (x, s1)" by (cases "uniform rand minx maxx s")
  obtain y s2 where u2: "uniform rand miny maxy s1 = (y, s2)" by (cases "uniform rand miny maxy s1")
  have s1: "s1 = snd (rand s)" using snd_uniform [of rand minx maxx s] u1 by simp
  have s2: "s2 = snd (rand s1)" using snd_uniform [of rand miny maxy s1] u2 by simp
  show ?case
  proof (cases "contains g (x, y)")
    case True
    have "advance rand (2 * Suc 0) s = s2" unfolding advance_two using s1 s2 by simp
    with True b u1 u2 show ?thesis by simp
  next
    case False
    have "advance rand (2 * Suc (min n (Suc (length (takeWhile (\<lambda>q. \<not> contains g q)
              (draws rand b n s2)))))) s =
          advance rand (2 * min n (Suc (length (takeWhile (\<lambda>q. \<not> contains g q)
              (draws rand b n s2))))) s2"
      unfolding advance_two using s1 s2 by simp
    with False b u1 u2 Suc.IH [of s2] show ?thesis by simp
  qed
qed


lemma list_all2_right_member:
  "list_all2 P xs ys \<Longrightarrow> y \<in> set ys \<Longrightarrow> \<exists>x \<in> set xs. P x y"
  by (induction rule: list_all2_induct) auto

lemma row_dots_inside:
  assumes "row_dots rand bounds contains tracts r s = Inr (ds, s')"
  shows "\<forall>d \<in> set ds. \<exists>t. filter (\<lambda>t. GEOID t = geoid d) tracts = [t]
           \<and> contains (geometry t) (point d)"
proof -
  from row_dots_cases [OF assms] show ?thesis
  proof
    assume "ds = [] \<and> (jobs r \<le> 0 \<or> nat (dot_count (jobs r)) = 0)"
    then show ?thesis by simp
  next
    assume "0 < jobs r \<and> (\<exists>t ps. filter (\<lambda>t. GEOID t = geoid r) tracts = [t]
          \<and> place_dots rand contains (geometry t) (bounds (geometry t))
               (nat (dot_count (jobs r))) s = (ps, s')
          \<and> ds = map (mk_dot r) ps)"
    then obtain t ps where ft: "filter (\<lambda>t. GEOID t = geoid r) tracts = [t]"
      and pl: "place_dots rand contains (geometry t) (bounds (geometry t))
               (nat (dot_count (jobs r))) s = (ps, s')"
      and ds: "ds = map (mk_dot r) ps" by blast
    from place_dots_inside [OF pl] have "\<forall>q \<in> set ps. contains (geometry t) q" .
    with ft ds show ?thesis by (auto simp: mk_dot_def)
  qed
qed

lemma place_dots_from_draws:
  "place_dots rand contains g b k s = dots_from_draws rand contains g b k s"
proof (induction k arbitrary: s)
  case 0
  show ?case by simp
next
  case (Suc k)
  show ?case
    by (simp only: place_dots.simps dots_from_draws.simps attempt_loop_draws prod.case Suc.IH)
qed

lemma row_dots_from_draws:
  assumes "row_dots rand bounds contains tracts r s0 = Inr (ds, s1)"
  shows "if jobs r \<le> 0 \<or> nat (dot_count (jobs r)) = 0 then ds = [] \<and> s1 = s0
     else \<exists>t ps. filter (\<lambda>t. GEOID t = geoid r) tracts = [t]
            \<and> dots_from_draws rand contains (geometry t) (bounds (geometry t))
                 (nat (dot_count (jobs r))) s0 = (ps, s1)
            \<and> ds = map (mk_dot r) ps"
proof (cases "jobs r \<le> 0")
  case True
  with assms show ?thesis by (simp add: row_dots_def)
next
  case False
  show ?thesis
  proof (cases "filter (\<lambda>t. GEOID t = geoid r) tracts")
    case Nil
    with False assms show ?thesis by (simp add: row_dots_def loc_geometry_def)
  next
    case (Cons t ts)
    show ?thesis
    proof (cases ts)
      case Nil
      with Cons False assms show ?thesis
        by (auto simp: row_dots_def loc_geometry_def place_dots_from_draws split: prod.splits)
    next
      case (Cons t2 ts2)
      with \<open>filter (\<lambda>t. GEOID t = geoid r) tracts = t # ts\<close> False assms show ?thesis
        by (auto simp: row_dots_def loc_geometry_def split: if_splits)
    qed
  qed
qed

lemma dots_loop_threaded:
  "dots_loop rand bounds contains tracts rs acc s = Inr (dots, s') \<Longrightarrow>
   \<exists>dss ss. dots = acc @ concat dss \<and> length ss = length rs \<and> last (s # ss) = s'
     \<and> list_all2 (\<lambda>(r, s0, s1) ds. row_dots rand bounds contains tracts r s0 = Inr (ds, s1))
          (zip rs (zip (s # ss) ss)) dss"
proof (induction rs arbitrary: acc s)
  case Nil
  then have "dots = acc @ concat [] \<and> length ([]::'a list) = length ([]::long_row list)
      \<and> last (s # []) = s'
      \<and> list_all2 (\<lambda>(r, s0, s1) ds. row_dots rand bounds contains tracts r s0 = Inr (ds, s1))
          (zip [] (zip (s # []) [])) []"
    by simp
  then show ?case by blast
next
  case (Cons r rs)
  from Cons.prems obtain ds s1 where
    row: "row_dots rand bounds contains tracts r s = Inr (ds, s1)"
    and rest: "dots_loop rand bounds contains tracts rs (acc @ ds) s1 = Inr (dots, s')"
    by (auto split: sum.splits)
  from Cons.IH [OF rest] obtain dss ss where
    a: "dots = (acc @ ds) @ concat dss" and b: "length ss = length rs"
    and c: "last (s1 # ss) = s'"
    and d: "list_all2 (\<lambda>(r, s0, s1) ds. row_dots rand bounds contains tracts r s0 = Inr (ds, s1))
          (zip rs (zip (s1 # ss) ss)) dss"
    by blast
  have "dots = acc @ concat (ds # dss) \<and> length (s1 # ss) = length (r # rs)
      \<and> last (s # s1 # ss) = s'
      \<and> list_all2 (\<lambda>(r, s0, s1) ds. row_dots rand bounds contains tracts r s0 = Inr (ds, s1))
          (zip (r # rs) (zip (s # s1 # ss) (s1 # ss))) (ds # dss)"
    using a b c d row by simp
  then show ?case by blast
qed

text \<open>
  Claim C6. When the synthesis pass returns, every dot's tract identifier labels exactly
  one tract, and the containment test holds of that tract's polygon and the dot's point.
  The pass goes through the rows of the long table with the generator state threaded
  from the seeded state to the final one. A row with jobs at most 0 or a zero target
  leaves the state alone and has no dot. Any other row has one owning tract, and its
  dots and the state after it are those of \<open>dots_from_draws\<close> on that tract's polygon
  and bounding rectangle, with the row's target count, from the state before the row:
  per dot at most 20 points of the rectangle, the first one inside accepted, the dot
  skipped when none is.
\<close>

theorem dots_inside_owning_tract:
  assumes "synthesize_dots seed rand bounds contains tracts long_df s = Inr (dots, s')"
  shows "(\<forall>d \<in> set dots. \<exists>t. filter (\<lambda>t. GEOID t = geoid d) tracts = [t]
            \<and> contains (geometry t) (point d))
    \<and> (\<exists>dss ss. dots = concat dss \<and> length ss = length long_df
          \<and> last (seed 42 # ss) = s'
          \<and> list_all2 (\<lambda>(r, s0, s1) ds.
               if jobs r \<le> 0 \<or> nat (dot_count (jobs r)) = 0 then ds = [] \<and> s1 = s0
               else \<exists>t ps. filter (\<lambda>t. GEOID t = geoid r) tracts = [t]
                      \<and> dots_from_draws rand contains (geometry t) (bounds (geometry t))
                           (nat (dot_count (jobs r))) s0 = (ps, s1)
                      \<and> ds = map (mk_dot r) ps)
             (zip long_df (zip (seed 42 # ss) ss)) dss)"
proof -
  from assms have loop:
    "dots_loop rand bounds contains tracts long_df [] (seed 42) = Inr (dots, s')"
    by (simp add: synthesize_dots_def random_seed_def)
  from dots_loop_rows [OF loop]
  obtain dss0 where cat0: "dots = concat dss0"
    and all0: "list_all2 (\<lambda>r ds. \<exists>s1 s2. row_dots rand bounds contains tracts r s1 = Inr (ds, s2))
       long_df dss0"
    by auto
  have inside: "\<forall>d \<in> set dots. \<exists>t. filter (\<lambda>t. GEOID t = geoid d) tracts = [t]
            \<and> contains (geometry t) (point d)"
  proof
    fix d assume "d \<in> set dots"
    with cat0 obtain ds where ds: "ds \<in> set dss0" and d: "d \<in> set ds" by auto
    from list_all2_right_member [OF all0 ds] obtain r s1 s2
      where "row_dots rand bounds contains tracts r s1 = Inr (ds, s2)" by blast
    from row_dots_inside [OF this] d
    show "\<exists>t. filter (\<lambda>t. GEOID t = geoid d) tracts = [t] \<and> contains (geometry t) (point d)"
      by blast
  qed
  from dots_loop_threaded [OF loop]
  obtain dss ss where cat: "dots = concat dss" and len: "length ss = length long_df"
    and lst: "last (seed 42 # ss) = s'"
    and all: "list_all2 (\<lambda>(r, s0, s1) ds. row_dots rand bounds contains tracts r s0 = Inr (ds, s1))
          (zip long_df (zip (seed 42 # ss) ss)) dss"
    by auto
  have "list_all2 (\<lambda>(r, s0, s1) ds.
               if jobs r \<le> 0 \<or> nat (dot_count (jobs r)) = 0 then ds = [] \<and> s1 = s0
               else \<exists>t ps. filter (\<lambda>t. GEOID t = geoid r) tracts = [t]
                      \<and> dots_from_draws rand contains (geometry t) (bounds (geometry t))
                           (nat (dot_count (jobs r))) s0 = (ps, s1)
                      \<and> ds = map (mk_dot r) ps)
             (zip long_df (zip (seed 42 # ss) ss)) dss"
    using all
  proof (rule list_all2_mono)
    fix x ds
    assume h: "(case x of (r, s0, s1) \<Rightarrow>
        \<lambda>ds. row_dots rand bounds contains tracts r s0 = Inr (ds, s1)) ds"
    obtain r s0 s1 where x: "x = (r, s0, s1)" by (cases x)
    with h have "row_dots rand bounds contains tracts r s0 = Inr (ds, s1)" by simp
    from row_dots_from_draws [OF this] x
    show "(case x of (r, s0, s1) \<Rightarrow> \<lambda>ds.
               if jobs r \<le> 0 \<or> nat (dot_count (jobs r)) = 0 then ds = [] \<and> s1 = s0
               else \<exists>t ps. filter (\<lambda>t. GEOID t = geoid r) tracts = [t]
                      \<and> dots_from_draws rand contains (geometry t) (bounds (geometry t))
                           (nat (dot_count (jobs r))) s0 = (ps, s1)
                      \<and> ds = map (mk_dot r) ps) ds"
      by simp
  qed
  with inside cat len lst show ?thesis by blast
qed

lemma draws_sample:
  "dots_from_draws rand_sample contains_sample 1 (bounds_sample 1) 2 42 = ([(2, 0), (2, 0)], 52)"
  by code_simp

lemma draws_all_rejected:
  "dots_from_draws rand_sample (\<lambda>g p. False) 1 (bounds_sample 1) 1 42 = ([], 82)"
  by code_simp

lemma draws_first_rejected:
  "draws rand_sample (bounds_sample 1) 2 42 = [(0, 1), (2, 0)]"
  by code_simp

text \<open>
  On the sample run both dots are at (2, 0), inside the tract. From the seeded state the
  first point drawn, (0, 1), is rejected and the second accepted; under a test that
  rejects everything the 20 points are used up (the generator has moved on by 40
  numbers) and the dot is skipped.
\<close>

theorem dots_inside_owning_tract_witness:
  "synthesize_dots seed_sample rand_sample bounds_sample contains_sample labelled_sample
     long_sample 7 = Inr ([dot_sample, dot_sample], 52)
   \<and> (\<exists>t. filter (\<lambda>t. GEOID t = geoid dot_sample) labelled_sample = [t]
          \<and> contains_sample (geometry t) (point dot_sample))
   \<and> dots_from_draws rand_sample contains_sample 1 (bounds_sample 1) 2 42 =
        ([(2, 0), (2, 0)], 52)
   \<and> draws rand_sample (bounds_sample 1) 2 42 = [(0, 1), (2, 0)]
   \<and> dots_from_draws rand_sample (\<lambda>g p. False) 1 (bounds_sample 1) 1 42 = ([], 82)"
proof -
  have run: "synthesize_dots seed_sample rand_sample bounds_sample contains_sample
      labelled_sample long_sample 7 = Inr ([dot_sample, dot_sample], 52)"
    by (rule synthesize_sample)
  from dots_inside_owning_tract [OF run] have inside:
    "\<exists>t. filter (\<lambda>t. GEOID t = geoid dot_sample) labelled_sample = [t]
          \<and> contains_sample (geometry t) (point dot_sample)"
    by simp
  from run inside draws_sample draws_first_rejected draws_all_rejected
  show ?thesis by (iprover intro: conjI)
qed

text \<open>
  On the sample run: no dot for the 30 Manufacturing jobs, and at most the target of two
  for the 120 Retail_Trade jobs.
\<close>

theorem dot_count_capped_witness:
  "\<exists>dss. [dot_sample, dot_sample] = concat dss \<and> length dss = 2
     \<and> dss ! 0 = [] \<and> int (length (dss ! 1)) \<le> 2 \<and> dot_count 120 = 2 \<and> dot_count 30 = 0"
proof -
  have run: "synthesize_dots seed_sample rand_sample bounds_sample contains_sample
      labelled_sample long_sample 7 = Inr ([dot_sample, dot_sample], 52)"
    by (rule synthesize_sample)
  have c: "dot_count 120 = 2" "dot_count 30 = 0"
    by (simp_all add: dot_count_def jobs_per_dot_def max_dots_per_tract_def)
  from dot_count_capped [OF run] obtain dss where cat: "[dot_sample, dot_sample] = concat dss"
    and all: "list_all2 (\<lambda>r ds.
         (\<forall>d \<in> set ds. geoid d = geoid r \<and> naics_sector d = naics_sector r)
       \<and> (0 < jobs r \<longrightarrow> dot_count (jobs r) = min \<lfloor>real_of_int (jobs r) / 50\<rfloor> 250
                          \<and> int (length ds) \<le> dot_count (jobs r))
       \<and> length ds \<le> 250
       \<and> (jobs r \<le> 0 \<or> \<lfloor>real_of_int (jobs r) / 50\<rfloor> = 0 \<longrightarrow> ds = [])) long_sample dss"
    by blast
  from all obtain d1 d2 where dss: "dss = [d1, d2]"
    and p1: "\<lfloor>real_of_int 30 / 50\<rfloor> = (0::int) \<longrightarrow> d1 = []"
    and p2: "int (length d2) \<le> dot_count 120"
    by (auto simp: long_sample_def list_all2_Cons1)
  have "\<lfloor>real_of_int 30 / 50\<rfloor> = (0::int)" by simp
  with p1 have "d1 = []" by simp
  with dss cat p2 c have "[dot_sample, dot_sample] = concat dss \<and> length dss = 2
     \<and> dss ! 0 = [] \<and> int (length (dss ! 1)) \<le> 2 \<and> dot_count 120 = 2 \<and> dot_count 30 = 0"
    by simp
  then show ?thesis ..
qed

text \<open>
  Claim C7. The synthesis pass, and with it \<open>process_lodes\<close>, returns the same dots in
  the same order (and leaves the same generator state) whatever the generator state was
  before the call: the pass reseeds with the constant 42 first, so its result is a
  function of its inputs alone.
\<close>

theorem synthesis_ignores_prior_generator_state:
  "synthesize_dots seed rand bounds contains tracts long_df s1 =
     synthesize_dots seed rand bounds contains tracts long_df s2
   \<and> process_lodes seed rand bounds contains tracts lodes s1 =
     process_lodes seed rand bounds contains tracts lodes s2"
  by (simp add: process_lodes_def synthesize_dots_def random_seed_def)

section \<open>Dominant sector\<close>

lemma idxmax_member: "idxmax best rs \<in> set (best # rs)"
  by (induction rs arbitrary: best) auto

lemma idxmax_greatest: "\<forall>r \<in> set (best # rs). jobs r \<le> jobs (idxmax best rs)"
proof (induction rs arbitrary: best)
  case Nil
  then show ?case by simp
next
  case (Cons r rs)
  have "jobs (if jobs best < jobs r then r else best) \<le>
        jobs (idxmax (if jobs best < jobs r then r else best) rs)"
    using Cons.IH [of "if jobs best < jobs r then r else best"] by simp
  moreover have "\<forall>x \<in> set rs. jobs x \<le> jobs (idxmax (if jobs best < jobs r then r else best) rs)"
    using Cons.IH [of "if jobs best < jobs r then r else best"] by simp
  ultimately show ?case by auto
qed

lemma idxmax_first: "\<forall>r \<in> set rs. jobs r \<le> jobs best \<Longrightarrow> idxmax best rs = best"
  by (induction rs arbitrary: best) auto

lemma filter_concat_keys:
  "distinct ks \<Longrightarrow> (\<forall>k \<in> set ks. \<forall>x \<in> set (F k). key x = k) \<Longrightarrow>
   filter (\<lambda>x. key x = g) (concat (map F ks)) = (if g \<in> set ks then F g else [])"
proof (induction ks)
  case Nil
  then show ?case by simp
next
  case (Cons k ks)
  then have ih: "filter (\<lambda>x. key x = g) (concat (map F ks)) = (if g \<in> set ks then F g else [])"
    by simp
  from Cons.prems have own: "\<forall>x \<in> set (F k). key x = k" by simp
  show ?case
  proof (cases "g = k")
    case True
    with Cons.prems have "g \<notin> set ks" by simp
    moreover from own True have "filter (\<lambda>x. key x = g) (F k) = F k" by (simp add: filter_id_conv)
    ultimately show ?thesis using ih True by simp
  next
    case False
    with own have "filter (\<lambda>x. key x = g) (F k) = []" by (auto simp: filter_empty_conv)
    with ih False show ?thesis by simp
  qed
qed

lemma dominant_group:
  "filter (\<lambda>r. geoid r = g) (dominant long_df) =
    (case filter (\<lambda>r. geoid r = g) long_df of [] \<Rightarrow> [] | r # rs \<Rightarrow> [idxmax r rs])"
proof -
  let ?F = "\<lambda>g. (case filter (\<lambda>r. geoid r = g) long_df of [] \<Rightarrow> [] | r # rs \<Rightarrow> [idxmax r rs])"
  have own: "\<forall>k \<in> set (sort (remdups (map geoid long_df))). \<forall>x \<in> set (?F k). geoid x = k"
  proof (intro ballI)
    fix k x assume x: "x \<in> set (?F k)"
    show "geoid x = k"
    proof (cases "filter (\<lambda>r. geoid r = k) long_df")
      case Nil
      with x show ?thesis by simp
    next
      case (Cons r rs)
      with x have "x = idxmax r rs" by simp
      then have "x \<in> set (r # rs)" using idxmax_member by simp
      then have "x \<in> set (filter (\<lambda>r. geoid r = k) long_df)" using Cons by simp
      then show ?thesis by simp
    qed
  qed
  have d: "distinct (sort (remdups (map geoid long_df)))" by simp
  have eq: "filter (\<lambda>r. geoid r = g) (dominant long_df) =
      (if g \<in> set (sort (remdups (map geoid long_df))) then ?F g else [])"
    unfolding dominant_def by (rule filter_concat_keys [OF d own])
  show ?thesis
  proof (cases "g \<in> set (map geoid long_df)")
    case True
    with eq show ?thesis by simp
  next
    case False
    then have "filter (\<lambda>r. geoid r = g) long_df = []" by (auto simp: filter_empty_conv)
    with eq show ?thesis by simp
  qed
qed

lemma filter_blocks:
  "filter (\<lambda>r. geoid r = g)
     (concat (map (\<lambda>sec.
        map (\<lambda>w. \<lparr>redev_name = redev_name w, geoid = geoid w, naics_sector = sec,
                   sector_name = map_of SECTOR_MAP sec, jobs = counts w sec\<rparr>) lodes) secs)) =
   concat (map (\<lambda>sec.
      map (\<lambda>w. \<lparr>redev_name = redev_name w, geoid = geoid w, naics_sector = sec,
                 sector_name = map_of SECTOR_MAP sec, jobs = counts w sec\<rparr>)
        (filter (\<lambda>w. geoid w = g) lodes)) secs)"
  by (induction secs) (simp_all add: filter_map comp_def)

lemma melt_group:
  "filter (\<lambda>r. geoid r = g) (melt lodes) =
    concat (map (\<lambda>sec.
      map (\<lambda>w. \<lparr>redev_name = redev_name w, geoid = geoid w, naics_sector = sec,
                 sector_name = map_of SECTOR_MAP sec, jobs = counts w sec\<rparr>)
        (filter (\<lambda>w. geoid w = g) lodes)) sector_cols)"
  unfolding melt_def by (rule filter_blocks)

lemma sector_cols_first: "sector_cols = ''CNS01'' # tl sector_cols"
  by (simp add: sector_cols_def SECTOR_MAP_def)

text \<open>
  Claim C10. For every tract identifier of the aggregated wide table, the dominant-sector
  table has exactly one row; it is a row of the long table with the greatest job count
  of the tract. When all sector counts of the tract are zero, it is the first row of the
  tract in the long table: sector \<open>CNS01\<close>, Agriculture_Forestry_Fishing, with 0 jobs.
\<close>

theorem dominant_one_row_per_tract:
  assumes "g \<in> geoid ` set lodes"
  shows "\<exists>d. filter (\<lambda>r. geoid r = g) (dominant (melt lodes)) = [d]
     \<and> d \<in> set (melt lodes)
     \<and> (\<forall>r \<in> set (melt lodes). geoid r = g \<longrightarrow> jobs r \<le> jobs d)
     \<and> ((\<forall>w \<in> set lodes. geoid w = g \<longrightarrow> (\<forall>sec \<in> set sector_cols. counts w sec = 0))
          \<longrightarrow> d = hd (filter (\<lambda>r. geoid r = g) (melt lodes))
            \<and> naics_sector d = ''CNS01''
            \<and> sector_name d = Some ''Agriculture_Forestry_Fishing''
            \<and> jobs d = 0)"
proof -
  let ?mk = "\<lambda>sec w. \<lparr>redev_name = redev_name w, geoid = geoid w, naics_sector = sec,
                 sector_name = map_of SECTOR_MAP sec, jobs = counts w sec\<rparr>"
  from assms obtain w ws where ws: "filter (\<lambda>w. geoid w = g) lodes = w # ws"
    by (cases "filter (\<lambda>w. geoid w = g) lodes") (auto simp: filter_empty_conv)
  define rest where "rest = map (?mk ''CNS01'') ws @
      concat (map (\<lambda>sec. map (?mk sec) (w # ws)) (tl sector_cols))"
  have grp: "filter (\<lambda>r. geoid r = g) (melt lodes) = ?mk ''CNS01'' w # rest"
    unfolding melt_group ws rest_def by (subst sector_cols_first) simp
  define d where "d = idxmax (?mk ''CNS01'' w) rest"
  have one: "filter (\<lambda>r. geoid r = g) (dominant (melt lodes)) = [d]"
    by (simp add: dominant_group grp d_def)
  have mem: "d \<in> set (filter (\<lambda>r. geoid r = g) (melt lodes))"
    unfolding grp d_def by (rule idxmax_member)
  then have mem2: "d \<in> set (melt lodes)" by simp
  have mx: "\<forall>r \<in> set (melt lodes). geoid r = g \<longrightarrow> jobs r \<le> jobs d"
  proof (intro ballI impI)
    fix r assume "r \<in> set (melt lodes)" "geoid r = g"
    then have "r \<in> set (filter (\<lambda>r. geoid r = g) (melt lodes))" by simp
    then have "r \<in> set (?mk ''CNS01'' w # rest)" unfolding grp .
    then show "jobs r \<le> jobs d" unfolding d_def using idxmax_greatest by blast
  qed
  have zero: "(\<forall>w \<in> set lodes. geoid w = g \<longrightarrow> (\<forall>sec \<in> set sector_cols. counts w sec = 0))
          \<longrightarrow> d = hd (filter (\<lambda>r. geoid r = g) (melt lodes))
            \<and> naics_sector d = ''CNS01''
            \<and> sector_name d = Some ''Agriculture_Forestry_Fishing''
            \<and> jobs d = 0"
  proof
    assume z: "\<forall>w \<in> set lodes. geoid w = g \<longrightarrow> (\<forall>sec \<in> set sector_cols. counts w sec = 0)"
    have allz: "\<forall>r \<in> set (filter (\<lambda>r. geoid r = g) (melt lodes)). jobs r = 0"
      using z unfolding melt_def by auto
    then have "\<forall>r \<in> set rest. jobs r \<le> jobs (?mk ''CNS01'' w)"
      unfolding grp by simp
    from idxmax_first [OF this] have dd: "d = ?mk ''CNS01'' w" by (simp add: d_def)
    have "jobs (?mk ''CNS01'' w) = 0" using allz unfolding grp by simp
    with dd grp show "d = hd (filter (\<lambda>r. geoid r = g) (melt lodes))
            \<and> naics_sector d = ''CNS01''
            \<and> sector_name d = Some ''Agriculture_Forestry_Fishing''
            \<and> jobs d = 0"
      by (simp add: SECTOR_MAP_def)
  qed
  from one mem2 mx zero show ?thesis by blast
qed


lemma dominant_sample:
  "map (\<lambda>d. (geoid d, naics_sector d, jobs d)) (dominant (melt lodes_sample)) =
     [(''48439100100'', ''CNS01'', 0), (''48439100200'', ''CNS07'', 120)]"
  by code_simp

text \<open>
  On the sample table: the tract without jobs gets \<open>CNS01\<close>, the other one Retail_Trade.
\<close>

theorem dominant_one_row_per_tract_witness:
  "(\<exists>d. filter (\<lambda>r. geoid r = ''48439100100'') (dominant (melt lodes_sample)) = [d]
       \<and> naics_sector d = ''CNS01''
       \<and> sector_name d = Some ''Agriculture_Forestry_Fishing''
       \<and> jobs d = 0)
   \<and> map (\<lambda>d. (geoid d, naics_sector d, jobs d)) (dominant (melt lodes_sample)) =
       [(''48439100100'', ''CNS01'', 0), (''48439100200'', ''CNS07'', 120)]"
proof -
  have present: "''48439100100'' \<in> geoid ` set lodes_sample"
    by (simp add: lodes_sample_def)
  have zero: "\<forall>w \<in> set lodes_sample. geoid w = ''48439100100'' \<longrightarrow>
      (\<forall>sec \<in> set sector_cols. counts w sec = 0)"
    by (simp add: lodes_sample_def)
  from dominant_one_row_per_tract [OF present] zero
  have "\<exists>d. filter (\<lambda>r. geoid r = ''48439100100'') (dominant (melt lodes_sample)) = [d]
       \<and> naics_sector d = ''CNS01''
       \<and> sector_name d = Some ''Agriculture_Forestry_Fishing''
       \<and> jobs d = 0"
    by blast
  with dominant_sample show ?thesis by blast
qed

section \<open>Panel builder\<close>

lemma length_group_diff: "length (group_diff col seen rs) = length rs"
  by (induction rs arbitrary: seen) simp_all

lemma group_diff_pairs:
  "group_diff col seen rs =
     diff_pairs (map (\<lambda>r. (geoid r, num r col)) seen) (map (\<lambda>r. (geoid r, num r col)) rs)"
proof (induction rs arbitrary: seen)
  case Nil
  then show ?case by simp
next
  case (Cons r rs)
  have f: "filter (\<lambda>p. fst p = geoid r) (map (\<lambda>r. (geoid r, num r col)) seen) =
           map (\<lambda>r. (geoid r, num r col)) (filter (\<lambda>x. geoid x = geoid r) seen)"
    by (simp add: filter_map comp_def)
  have hd: "(case prev_in_group (geoid r) seen of None \<Rightarrow> NaN
             | Some p \<Rightarrow> fsub (num r col) (num p col)) =
        (case filter (\<lambda>p. fst p = geoid r) (map (\<lambda>r. (geoid r, num r col)) seen) of
           [] \<Rightarrow> NaN
         | x # xs \<Rightarrow> fsub (num r col) (snd (last (x # xs))))"
  proof (cases "filter (\<lambda>x. geoid x = geoid r) seen")
    case Nil
    then show ?thesis by (simp add: f prev_in_group_def)
  next
    case (Cons x xs)
    then have "snd (last (map (\<lambda>r. (geoid r, num r col)) (x # xs))) = num (last (x # xs)) col"
      by (simp only: last_map [OF list.distinct(2)] snd_conv)
    with Cons show ?thesis by (simp add: f prev_in_group_def)
  qed
  show ?case using Cons.IH [of "seen @ [r]"] hd by simp
qed

lemma add_delta_keys:
  "map (\<lambda>r. (redev_name r, geoid r, year r)) (add_delta panel col) =
   map (\<lambda>r. (redev_name r, geoid r, year r)) panel"
  unfolding add_delta_def
  by (rule nth_equalityI) (simp_all add: length_group_diff)

lemma add_delta_other:
  "c \<noteq> ''delta_'' @ col \<Longrightarrow>
   map (\<lambda>r. num r c) (add_delta panel col) = map (\<lambda>r. num r c) panel"
  unfolding add_delta_def
  by (rule nth_equalityI) (simp_all add: length_group_diff)

lemma add_delta_written:
  "map (\<lambda>r. num r (''delta_'' @ col)) (add_delta panel col) = group_diff col [] panel"
  unfolding add_delta_def
  by (rule nth_equalityI) (simp_all add: length_group_diff)

lemma foldl_add_delta_keys:
  "map (\<lambda>r. (redev_name r, geoid r, year r)) (foldl add_delta panel cols) =
   map (\<lambda>r. (redev_name r, geoid r, year r)) panel"
  by (induction cols arbitrary: panel) (simp_all add: add_delta_keys)

lemma foldl_add_delta_other:
  "\<forall>col \<in> set cols. c \<noteq> ''delta_'' @ col \<Longrightarrow>
   map (\<lambda>r. num r c) (foldl add_delta panel cols) = map (\<lambda>r. num r c) panel"
  by (induction cols arbitrary: panel) (simp_all add: add_delta_other)

lemma pairs_of_columns:
  "map (\<lambda>r. (geoid r, num r c)) rs =
   zip (map (\<lambda>r. fst (snd (redev_name r, geoid r, year r))) rs) (map (\<lambda>r. num r c) rs)"
  by (induction rs) simp_all

lemma add_delta_pairs:
  "c \<noteq> ''delta_'' @ col \<Longrightarrow>
   map (\<lambda>r. (geoid r, num r c)) (add_delta panel col) = map (\<lambda>r. (geoid r, num r c)) panel"
proof -
  assume a: "c \<noteq> ''delta_'' @ col"
  have k: "map geoid (add_delta panel col) = map geoid panel"
    using add_delta_keys [of panel col, THEN arg_cong, of "map (\<lambda>k. fst (snd k))"]
    by (simp add: comp_def)
  have "map (\<lambda>r. (geoid r, num r c)) (add_delta panel col) =
        zip (map geoid (add_delta panel col)) (map (\<lambda>r. num r c) (add_delta panel col))"
    by (simp add: zip_map_map zip_same_conv_map)
  also have "\<dots> = zip (map geoid panel) (map (\<lambda>r. num r c) panel)"
    by (simp only: k add_delta_other [OF a])
  also have "\<dots> = map (\<lambda>r. (geoid r, num r c)) panel"
    by (simp add: zip_map_map zip_same_conv_map)
  finally show ?thesis .
qed

lemma foldl_add_delta_pairs:
  "\<forall>col \<in> set cols. c \<noteq> ''delta_'' @ col \<Longrightarrow>
   map (\<lambda>r. (geoid r, num r c)) (foldl add_delta panel cols) =
   map (\<lambda>r. (geoid r, num r c)) panel"
  by (induction cols arbitrary: panel) (simp_all add: add_delta_pairs)

lemma foldl_add_delta_written:
  assumes "distinct cols" and "c \<in> set cols"
    and "\<forall>a \<in> set cols. \<forall>b \<in> set cols. a \<noteq> ''delta_'' @ b"
  shows "map (\<lambda>r. num r (''delta_'' @ c)) (foldl add_delta panel cols) =
         diff_pairs [] (map (\<lambda>r. (geoid r, num r c)) panel)"
  using assms
proof (induction cols arbitrary: panel)
  case Nil
  then show ?case by simp
next
  case (Cons c0 cols)
  show ?case
  proof (cases "c = c0")
    case True
    with Cons.prems have "\<forall>col \<in> set cols. ''delta_'' @ c \<noteq> ''delta_'' @ col" by auto
    from foldl_add_delta_other [OF this]
    have "map (\<lambda>r. num r (''delta_'' @ c)) (foldl add_delta (add_delta panel c0) cols) =
          map (\<lambda>r. num r (''delta_'' @ c)) (add_delta panel c0)" .
    also have "\<dots> = group_diff c0 [] panel"
      unfolding True by (rule add_delta_written)
    also have "\<dots> = diff_pairs [] (map (\<lambda>r. (geoid r, num r c)) panel)"
      unfolding True by (simp only: group_diff_pairs list.map)
    finally show ?thesis by (simp only: foldl_Cons)
  next
    case False
    with Cons.prems have mem: "c \<in> set cols" and d: "distinct cols"
      and fresh: "\<forall>a \<in> set cols. \<forall>b \<in> set cols. a \<noteq> ''delta_'' @ b"
      and ne: "c \<noteq> ''delta_'' @ c0"
      by auto
    from Cons.IH [OF d mem fresh, of "add_delta panel c0"] add_delta_pairs [OF ne, of panel]
    show ?thesis by simp
  qed
qed


lemma diff_pairs_filter:
  "map snd (filter (\<lambda>pd. fst (fst pd) = g) (zip ps (diff_pairs seen ps))) =
   diff_pairs (filter (\<lambda>p. fst p = g) seen) (filter (\<lambda>p. fst p = g) ps)"
proof (induction ps arbitrary: seen)
  case Nil
  then show ?case by simp
next
  case (Cons p ps)
  obtain g' v where p: "p = (g', v)" by (cases p)
  show ?case
  proof (cases "g' = g")
    case True
    with p Cons.IH [of "seen @ [(g', v)]"] show ?thesis by simp
  next
    case False
    with p Cons.IH [of "seen @ [(g', v)]"] show ?thesis by simp
  qed
qed

lemma filter_rows_zip:
  "map f (filter (\<lambda>r. k r = g) rs) =
   map snd (filter (\<lambda>pd. fst (fst pd) = g) (zip (map (\<lambda>r. (k r, h r)) rs) (map f rs)))"
  by (induction rs) simp_all

lemma numeric_distinct: "distinct numeric"
  by (simp add: numeric_def keep_cols_def)

lemma numeric_fresh: "\<forall>a \<in> set numeric. \<forall>b \<in> set numeric. a \<noteq> ''delta_'' @ b"
  by (simp add: numeric_def keep_cols_def)

lemma build_panel_keys:
  "map (\<lambda>r. (redev_name r, geoid r, year r)) (build_panel acs labels) =
   map (\<lambda>r. (redev_name r, geoid r, year r))
     (sort_key (\<lambda>r. (geoid r, year r)) (merge_left acs labels))"
  unfolding build_panel_def by (rule foldl_add_delta_keys)

lemma build_panel_sorted:
  "sorted (map (\<lambda>r. (geoid r, year r)) (build_panel acs labels))"
proof -
  have "map (\<lambda>r. (geoid r, year r)) (build_panel acs labels) =
        map snd (map (\<lambda>r. (redev_name r, geoid r, year r)) (build_panel acs labels))"
    by (simp add: comp_def)
  also have "\<dots> = map (\<lambda>r. (geoid r, year r))
      (sort_key (\<lambda>r. (geoid r, year r)) (merge_left acs labels))"
    unfolding build_panel_keys by (simp add: comp_def)
  finally show ?thesis by (simp only: sorted_sort_key)
qed

lemma build_panel_group_delta:
  assumes "col \<in> set numeric"
  shows "map (\<lambda>r. num r (''delta_'' @ col)) (filter (\<lambda>r. geoid r = g) (build_panel acs labels)) =
     diff_pairs [] (map (\<lambda>r. (geoid r, num r col))
       (filter (\<lambda>r. geoid r = g) (build_panel acs labels)))"
proof -
  let ?base = "sort_key (\<lambda>r. (geoid r, year r)) (merge_left acs labels)"
  let ?P = "build_panel acs labels"
  have fresh: "\<forall>c \<in> set numeric. col \<noteq> ''delta_'' @ c"
    using numeric_fresh assms by blast
  have pairs: "map (\<lambda>r. (geoid r, num r col)) ?P = map (\<lambda>r. (geoid r, num r col)) ?base"
    unfolding build_panel_def by (rule foldl_add_delta_pairs [OF fresh])
  have written: "map (\<lambda>r. num r (''delta_'' @ col)) ?P =
      diff_pairs [] (map (\<lambda>r. (geoid r, num r col)) ?P)"
    unfolding pairs unfolding build_panel_def
    by (rule foldl_add_delta_written [OF numeric_distinct assms numeric_fresh])
  have "map (\<lambda>r. num r (''delta_'' @ col)) (filter (\<lambda>r. geoid r = g) ?P) =
      map snd (filter (\<lambda>pd. fst (fst pd) = g)
        (zip (map (\<lambda>r. (geoid r, num r col)) ?P) (map (\<lambda>r. num r (''delta_'' @ col)) ?P)))"
    by (rule filter_rows_zip)
  also have "\<dots> = diff_pairs [] (filter (\<lambda>p. fst p = g) (map (\<lambda>r. (geoid r, num r col)) ?P))"
    unfolding written using diff_pairs_filter [of g _ "[]"] by simp
  also have "\<dots> = diff_pairs [] (map (\<lambda>r. (geoid r, num r col)) (filter (\<lambda>r. geoid r = g) ?P))"
    by (simp add: filter_map comp_def)
  finally show ?thesis .
qed

lemma sorted_group_years:
  "\<forall>r \<in> set rs. geoid r = g \<Longrightarrow> sorted (map (\<lambda>r. (geoid r, year r)) rs)
   \<Longrightarrow> sorted (map year rs)"
  by (induction rs) (auto simp: less_eq_prod_def)

lemma build_panel_first_difference:
  assumes grp: "filter (\<lambda>r. geoid r = g) (build_panel acs labels) = r1 # r2 # rest"
    and years: "distinct (map year (r1 # r2 # rest))"
    and col: "col \<in> set numeric"
  shows "year r1 < year r2 \<and> (\<forall>r \<in> set rest. year r2 < year r)
     \<and> num r1 (''delta_'' @ col) = NaN
     \<and> num r2 (''delta_'' @ col) = fsub (num r2 col) (num r1 col)"
proof -
  let ?P = "build_panel acs labels"
  have mem: "\<forall>r \<in> set (r1 # r2 # rest). geoid r = g"
    unfolding grp [symmetric] by simp
  then have g1: "geoid r1 = g" and g2: "geoid r2 = g" by simp_all
  have "sorted (map (\<lambda>r. (geoid r, year r)) (filter (\<lambda>r. geoid r = g) ?P))"
    by (rule sorted_filter [OF build_panel_sorted])
  then have srt: "sorted (map (\<lambda>r. (geoid r, year r)) (r1 # r2 # rest))"
    unfolding grp .
  have "sorted (map year (r1 # r2 # rest))"
    by (rule sorted_group_years [OF mem srt])
  with years have strict: "year r1 < year r2 \<and> (\<forall>r \<in> set rest. year r2 < year r)"
    by (auto simp: order_less_le)
  from build_panel_group_delta [OF col, of g acs labels]
  have "map (\<lambda>r. num r (''delta_'' @ col)) (r1 # r2 # rest) =
      diff_pairs [] (map (\<lambda>r. (geoid r, num r col)) (r1 # r2 # rest))"
    unfolding grp .
  then have "num r1 (''delta_'' @ col) = NaN
     \<and> num r2 (''delta_'' @ col) = fsub (num r2 col) (num r1 col)"
    using g1 g2 by simp
  with strict show ?thesis by blast
qed


lemma diff_pairs_nth:
  "i < length ps \<Longrightarrow>
   diff_pairs seen ps ! i = NaN
   \<or> (\<exists>p \<in> set (seen @ take i ps). fst p = fst (ps ! i)
          \<and> diff_pairs seen ps ! i = fsub (snd (ps ! i)) (snd p))"
proof (induction ps arbitrary: seen i)
  case Nil
  then show ?case by simp
next
  case (Cons q ps)
  obtain g v where q: "q = (g, v)" by (cases q)
  show ?case
  proof (cases i)
    case 0
    show ?thesis
    proof (cases "filter (\<lambda>p. fst p = g) seen")
      case Nil
      with 0 q show ?thesis by simp
    next
      case (Cons x xs)
      have "last (x # xs) \<in> set (filter (\<lambda>p. fst p = g) seen)"
        unfolding Cons by (rule last_in_set) simp
      then have "last (x # xs) \<in> set seen \<and> fst (last (x # xs)) = g" by simp
      with 0 q Cons show ?thesis by auto
    qed
  next
    case (Suc k)
    with Cons.prems have "k < length ps" by simp
    from Cons.IH [OF this, of "seen @ [q]"] Suc q show ?thesis by auto
  qed
qed

lemma build_panel_delta_column:
  assumes "col \<in> set numeric"
  shows "map (\<lambda>r. num r (''delta_'' @ col)) (build_panel acs labels) =
         diff_pairs [] (map (\<lambda>r. (geoid r, num r col)) (build_panel acs labels))"
proof -
  let ?base = "sort_key (\<lambda>r. (geoid r, year r)) (merge_left acs labels)"
  have fresh: "\<forall>c \<in> set numeric. col \<noteq> ''delta_'' @ c"
    using numeric_fresh assms by blast
  have pairs: "map (\<lambda>r. (geoid r, num r col)) (build_panel acs labels) =
      map (\<lambda>r. (geoid r, num r col)) ?base"
    unfolding build_panel_def by (rule foldl_add_delta_pairs [OF fresh])
  show ?thesis
    unfolding pairs unfolding build_panel_def
    by (rule foldl_add_delta_written [OF numeric_distinct assms numeric_fresh])
qed

lemma build_panel_within_tract:
  assumes col: "col \<in> set numeric" and i: "i < length (build_panel acs labels)"
  shows "num (build_panel acs labels ! i) (''delta_'' @ col) = NaN
     \<or> (\<exists>j < i. geoid (build_panel acs labels ! j) = geoid (build_panel acs labels ! i)
           \<and> num (build_panel acs labels ! i) (''delta_'' @ col) =
               fsub (num (build_panel acs labels ! i) col) (num (build_panel acs labels ! j) col))"
proof -
  let ?P = "build_panel acs labels"
  let ?ps = "map (\<lambda>r. (geoid r, num r col)) ?P"
  have d: "num (?P ! i) (''delta_'' @ col) = diff_pairs [] ?ps ! i"
    using build_panel_delta_column [OF col, of acs labels] i
    by (metis (no_types, lifting) nth_map)
  from i have "i < length ?ps" by simp
  from diff_pairs_nth [OF this, of "[]"]
  show ?thesis
  proof
    assume "diff_pairs [] ?ps ! i = NaN"
    with d show ?thesis by simp
  next
    assume "\<exists>p \<in> set ([] @ take i ?ps). fst p = fst (?ps ! i)
          \<and> diff_pairs [] ?ps ! i = fsub (snd (?ps ! i)) (snd p)"
    then obtain p where p: "p \<in> set (take i ?ps)" and fp: "fst p = fst (?ps ! i)"
      and dp: "diff_pairs [] ?ps ! i = fsub (snd (?ps ! i)) (snd p)" by auto
    from p obtain j where j: "j < i" "j < length ?ps" and pj: "p = ?ps ! j"
      by (auto simp: in_set_conv_nth)
    with i fp dp d have "geoid (?P ! j) = geoid (?P ! i)
        \<and> num (?P ! i) (''delta_'' @ col) = fsub (num (?P ! i) col) (num (?P ! j) col)"
      by simp
    with j show ?thesis by blast
  qed
qed

lemma prepare_acs_panel_build:
  assumes "prepare_acs_panel astype_str intersects acs tracts redev = Inr panel"
  obtains tracts2 where
    "add_redev_to_tracts astype_str intersects tracts redev = Inr tracts2"
    "panel = build_panel (map enrich acs) (map (\<lambda>t. (GEOID t, redev_name t)) (rows tracts2))"
  using assms by (auto simp: prepare_acs_panel_def split: sum.splits)

text \<open>
  Claim C4, as the code has it. The panel is sorted by (tract identifier, year). For a
  tract whose panel rows have pairwise distinct years and number at least two, the
  first two rows \<open>r1\<close>, \<open>r2\<close> of the tract are its first and second observed year; for
  every numeric column the delta of \<open>r1\<close> is undefined and the delta of \<open>r2\<close> is the value
  of \<open>r2\<close> minus the value of \<open>r1\<close>. Whatever the rows, a delta is either undefined or
  the difference to an earlier row of the same tract, never of another one.
\<close>

theorem panel_delta_first_difference:
  assumes run: "prepare_acs_panel astype_str intersects acs tracts redev = Inr panel"
    and grp: "filter (\<lambda>r. geoid r = g) panel = r1 # r2 # rest"
    and years: "distinct (map year (r1 # r2 # rest))"
    and col: "col \<in> set numeric"
  shows "sorted (map (\<lambda>r. (geoid r, year r)) panel)
     \<and> year r1 < year r2 \<and> (\<forall>r \<in> set rest. year r2 < year r)
     \<and> num r1 (''delta_'' @ col) = NaN
     \<and> num r2 (''delta_'' @ col) = fsub (num r2 col) (num r1 col)
     \<and> (\<forall>i < length panel. num (panel ! i) (''delta_'' @ col) = NaN
          \<or> (\<exists>j < i. geoid (panel ! j) = geoid (panel ! i)
                \<and> num (panel ! i) (''delta_'' @ col) =
                    fsub (num (panel ! i) col) (num (panel ! j) col)))"
proof -
  from run obtain tracts2 where
    a: "add_redev_to_tracts astype_str intersects tracts redev = Inr tracts2" and
    p: "panel = build_panel (map enrich acs) (map (\<lambda>t. (GEOID t, redev_name t)) (rows tracts2))"
    by (rule prepare_acs_panel_build)
  have s: "sorted (map (\<lambda>r. (geoid r, year r)) panel)"
    unfolding p by (rule build_panel_sorted)
  have f: "year r1 < year r2 \<and> (\<forall>r \<in> set rest. year r2 < year r)
     \<and> num r1 (''delta_'' @ col) = NaN
     \<and> num r2 (''delta_'' @ col) = fsub (num r2 col) (num r1 col)"
    using grp unfolding p by (rule build_panel_first_difference [OF _ years col])
  have w: "\<forall>i < length panel. num (panel ! i) (''delta_'' @ col) = NaN
          \<or> (\<exists>j < i. geoid (panel ! j) = geoid (panel ! i)
                \<and> num (panel ! i) (''delta_'' @ col) =
                    fsub (num (panel ! i) col) (num (panel ! j) col))"
    unfolding p using build_panel_within_tract [OF col] by blast
  from s f w show ?thesis by blast
qed

lemma panel_sample:
  "map_sum id (map (\<lambda>r. (geoid r, year r, redev_name r, num r ''total_pop'', num r ''delta_total_pop'')))
     (prepare_acs_panel (\<lambda>v. v) (=) acs_sample tracts_sample redev_sample) =
   Inr [(''48439100100'', 2020, ''Near Southside'', Fin 10, NaN),
        (''48439100100'', 2021, ''Near Southside'', Fin 15, Fin 5)]"
  by code_simp

lemma panel_overlap_sample:
  "map_sum id (map (\<lambda>r. (geoid r, year r, redev_name r, num r ''delta_total_pop'')))
     (prepare_acs_panel id (=) acs_sample tracts_sample redev_overlap_sample) =
   Inr [(''48439100100'', 2020, ''Near Southside'', NaN),
        (''48439100100'', 2020, ''Medical District'', Fin 0),
        (''48439100100'', 2021, ''Near Southside'', Fin 5),
        (''48439100100'', 2021, ''Medical District'', Fin 0)]"
  by code_simp


lemma map_two:
  "map f xs = [a, b] \<Longrightarrow> \<exists>x y. xs = [x, y] \<and> f x = a \<and> f y = b"
  by (cases xs; cases "tl xs"; cases "tl (tl xs)") auto

text \<open>
  On the sample with one boundary: the tract has the rows of 2020 and 2021, and the
  delta of the population is undefined in 2020 and 15 - 10 in 2021.
\<close>

theorem panel_delta_first_difference_witness:
  "\<exists>panel r1 r2.
      prepare_acs_panel (\<lambda>v. v) (=) acs_sample tracts_sample redev_sample = Inr panel
      \<and> filter (\<lambda>r. geoid r = ''48439100100'') panel = [r1, r2]
      \<and> year r1 = 2020 \<and> year r2 = 2021
      \<and> num r1 ''total_pop'' = Fin 10 \<and> num r2 ''total_pop'' = Fin 15
      \<and> num r1 ''delta_total_pop'' = NaN
      \<and> num r2 ''delta_total_pop'' = Fin 5"
proof -
  let ?f = "\<lambda>r. (geoid r, year r, redev_name r, num r ''total_pop'', num r ''delta_total_pop'')"
  obtain panel where run:
    "prepare_acs_panel (\<lambda>v. v) (=) acs_sample tracts_sample redev_sample = Inr panel"
    and m: "map ?f panel =
       [(''48439100100'', 2020, ''Near Southside'', Fin 10, NaN),
        (''48439100100'', 2021, ''Near Southside'', Fin 15, Fin 5)]"
    using panel_sample
    by (cases "prepare_acs_panel (\<lambda>v. v) (=) acs_sample tracts_sample redev_sample") auto
  from map_two [OF m] obtain r1 r2 where p: "panel = [r1, r2]"
    and r1: "?f r1 = (''48439100100'', 2020, ''Near Southside'', Fin 10, NaN)"
    and r2: "?f r2 = (''48439100100'', 2021, ''Near Southside'', Fin 15, Fin 5)"
    by blast
  have grp: "filter (\<lambda>r. geoid r = ''48439100100'') panel = r1 # r2 # []"
    using p r1 r2 by simp
  have years: "distinct (map year (r1 # r2 # []))" using r1 r2 by simp
  have col: "''total_pop'' \<in> set numeric" by (simp add: numeric_def keep_cols_def)
  from panel_delta_first_difference [OF run grp years col]
  have "num r1 (''delta_'' @ ''total_pop'') = NaN"
    and "num r2 (''delta_'' @ ''total_pop'') = fsub (num r2 ''total_pop'') (num r1 ''total_pop'')"
    by blast+
  with r1 r2 have "num r1 ''delta_total_pop'' = NaN" "num r2 ''delta_total_pop'' = Fin 5"
    by (simp_all add: fsub_def)
  with run grp r1 r2 show ?thesis by auto
qed

text \<open>
  Claim C4 as stated fails when a tract has two rows for a year (here because it meets
  two boundaries): the second row of 2020, the first observed year, has the delta 0, not
  an undefined one, and the second row of 2021 has the delta 0, not 15 - 10.
\<close>

theorem panel_delta_duplicate_rows_counterexample:
  "panel_column ''delta_total_pop''
     (prepare_acs_panel id (=) acs_sample tracts_sample redev_overlap_sample) =
   Inr [(''48439100100'', 2020, ''Near Southside'', NaN),
        (''48439100100'', 2020, ''Medical District'', Fin 0),
        (''48439100100'', 2021, ''Near Southside'', Fin 5),
        (''48439100100'', 2021, ''Medical District'', Fin 0)]"
  unfolding panel_column_def by (rule panel_overlap_sample)













end
